theory Spec2Isabelle
  imports Main "HOL-Library.AList" "HOL-Library.Char_ord" "HOL-Library.List_Lexorder"
    "HOL-Library.Product_Lexorder"
begin

section \<open>Values, reports and data frames\<close>

text \<open>
  The page \<^verbatim>\<open>pages/3_Water_Help.py\<close> keeps its reports as a Python list of dicts in
  \<^verbatim>\<open>st.session_state.reports\<close> and computes every view through pandas. A dict value is
  one of the objects below: text, an integer, a boolean, \<^verbatim>\<open>None\<close>, the float \<^verbatim>\<open>nan\<close>
  that pandas uses for a missing value, a pandas \<^verbatim>\<open>Timestamp\<close> (nanoseconds since
  1970-01-01, without time zone) or \<^verbatim>\<open>NaT\<close>. Floating point numbers other than
  \<^verbatim>\<open>nan\<close> and time zones are outside the model.
\<close>

datatype cell = Str string | IntV int | BoolV bool | NoneV | NaN | TS int | NaT

text \<open>A report is a Python dict: keys in insertion order, each key once.\<close>

type_synonym report = "(string \<times> cell) list"

record dataframe =
  columns :: "string list"
  rows :: "report list"

datatype exn =
    KeyError string
  | DateParseError cell
  | EmptyDataError
  | ParserError
  | OpenAIError
  | UpstreamError string

fun isna :: "cell \<Rightarrow> bool" where
  "isna NoneV = True"
| "isna NaN = True"
| "isna NaT = True"
| "isna _ = False"

definition cell_of :: "report \<Rightarrow> string \<Rightarrow> cell" where
  "cell_of r c = (case map_of r c of Some v \<Rightarrow> v | None \<Rightarrow> NaN)"

text \<open>
  \<^verbatim>\<open>pd.DataFrame(list_of_dicts)\<close>: the columns are the keys in order of first appearance,
  and a key that a dict lacks reads as \<^verbatim>\<open>nan\<close> in its row.
\<close>

definition DataFrame :: "report list \<Rightarrow> dataframe" where
  "DataFrame records =
     (let cols = rev (remdups (rev (concat (map (map fst) records))))
      in \<lparr>columns = cols, rows = map (\<lambda>r. map (\<lambda>c. (c, cell_of r c)) cols) records\<rparr>)"

text \<open>\<^verbatim>\<open>df.empty\<close>: no row or no column.\<close>

definition df_empty :: "dataframe \<Rightarrow> bool" where
  "df_empty df \<longleftrightarrow> columns df = [] \<or> rows df = []"

text \<open>\<^verbatim>\<open>df[c]\<close> raises \<^verbatim>\<open>KeyError\<close> for a column the frame does not have.\<close>

definition col :: "dataframe \<Rightarrow> string \<Rightarrow> exn + cell list" where
  "col df c = (if c \<in> set (columns df) then Inr (map (\<lambda>r. cell_of r c) (rows df))
               else Inl (KeyError c))"

text \<open>
  \<^verbatim>\<open>df[c] = values\<close>: an existing column is replaced where it stands, a new one is added
  last. The page only assigns a column computed from the frame's own rows, so the values
  are as many as the rows.
\<close>

definition set_column :: "string \<Rightarrow> cell list \<Rightarrow> dataframe \<Rightarrow> dataframe" where
  "set_column c vs df =
     \<lparr>columns = (if c \<in> set (columns df) then columns df else columns df @ [c]),
      rows = map (\<lambda>(v, r). AList.update c v r) (zip vs (rows df))\<rparr>"

text \<open>\<^verbatim>\<open>df.drop(columns=[c], errors="ignore")\<close>.\<close>

definition drop_column :: "string \<Rightarrow> dataframe \<Rightarrow> dataframe" where
  "drop_column c df =
     \<lparr>columns = filter (\<lambda>k. k \<noteq> c) (columns df), rows = map (AList.delete c) (rows df)\<rparr>"

text \<open>\<^verbatim>\<open>df.to_dict(orient="records")\<close>: one dict per row, in row order.\<close>

definition to_dict_records :: "dataframe \<Rightarrow> report list" where
  "to_dict_records df = rows df"

section \<open>Dates\<close>

text \<open>
  Civil dates and day numbers (days since 1970-01-01, a Thursday) in the proleptic
  Gregorian calendar, as pandas computes them.
\<close>

definition days_from_civil :: "int \<Rightarrow> int \<Rightarrow> int \<Rightarrow> int" where
  "days_from_civil y m d =
     (let y' = (if m \<le> 2 then y - 1 else y);
          era = y' div 400;
          yoe = y' - era * 400;
          doy = (153 * (if m > 2 then m - 3 else m + 9) + 2) div 5 + d - 1;
          doe = yoe * 365 + yoe div 4 - yoe div 100 + doy
      in era * 146097 + doe - 719468)"

definition civil_from_days :: "int \<Rightarrow> int \<times> int \<times> int" where
  "civil_from_days z0 =
     (let z = z0 + 719468;
          era = z div 146097;
          doe = z mod 146097;
          yoe = (doe - doe div 1460 + doe div 36524 - doe div 146096) div 365;
          doy = doe - (365 * yoe + yoe div 4 - yoe div 100);
          mp = (5 * doy + 2) div 153;
          d = doy - (153 * mp + 2) div 5 + 1;
          m = (if mp < 10 then mp + 3 else mp - 9)
      in (yoe + era * 400 + (if m \<le> 2 then 1 else 0), m, d))"

definition digit_char :: "nat \<Rightarrow> char" where
  "digit_char n = ''0123456789'' ! (n mod 10)"

fun digits :: "nat \<Rightarrow> string" where
  "digits n = (if n < 10 then [digit_char n] else digits (n div 10) @ [digit_char n])"

declare digits.simps [simp del]

text \<open>Python's \<^verbatim>\<open>str\<close> of an integer.\<close>

definition str_int :: "int \<Rightarrow> string" where
  "str_int i = (if i < 0 then CHR ''-'' # digits (nat (- i)) else digits (nat i))"

text \<open>A number in a field of fixed width, padded with zeros (\<^verbatim>\<open>%Y\<close>, \<^verbatim>\<open>%m\<close>, ...).\<close>

definition pad :: "nat \<Rightarrow> int \<Rightarrow> string" where
  "pad w i = (let s = str_int i in replicate (w - length s) CHR ''0'' @ s)"

definition fmt_date :: "int \<Rightarrow> string" where
  "fmt_date day = (case civil_from_days day of
     (y, m, d) \<Rightarrow> pad 4 y @ ''-'' @ pad 2 m @ ''-'' @ pad 2 d)"

definition ns_per_second :: int where
  "ns_per_second = 1000000000"

definition ns_per_day :: int where
  "ns_per_day = 86400 * ns_per_second"

text \<open>\<^verbatim>\<open>str(Timestamp)\<close> for a whole number of seconds: \<^verbatim>\<open>YYYY-MM-DD HH:MM:SS\<close>.\<close>

definition str_timestamp :: "int \<Rightarrow> string" where
  "str_timestamp t =
     (let secs = (t mod ns_per_day) div ns_per_second
      in fmt_date (t div ns_per_day) @ '' '' @ pad 2 (secs div 3600) @ '':''
           @ pad 2 (secs mod 3600 div 60) @ '':'' @ pad 2 (secs mod 60))"

subsection \<open>Parsing\<close>

text \<open>
  \<^verbatim>\<open>pd.to_datetime\<close> hands each string to a date parser that accepts many formats. The
  parser is a parameter \<open>parse\<close> of the model (\<open>None\<close>: the text is not a date pandas can
  represent), so that every theorem holds whatever the parser accepts. \<open>parse_iso\<close> below
  is one such parser, for the format the page itself writes (\<^verbatim>\<open>%Y-%m-%d %H:%M\<close>), with
  optional seconds.
\<close>

definition digit_val :: "char \<Rightarrow> nat option" where
  "digit_val c = (if CHR ''0'' \<le> c \<and> c \<le> CHR ''9'' then Some (of_char c - 48) else None)"

fun number :: "string \<Rightarrow> nat option" where
  "number [] = None"
| "number cs = foldl (\<lambda>acc c. case (acc, digit_val c) of
                   (Some a, Some d) \<Rightarrow> Some (10 * a + d) | _ \<Rightarrow> None) (Some 0) cs"

definition days_in_month :: "int \<Rightarrow> int \<Rightarrow> int" where
  "days_in_month y m =
     (if m = 2 then (if y mod 4 = 0 \<and> (y mod 100 \<noteq> 0 \<or> y mod 400 = 0) then 29 else 28)
      else if m \<in> {4, 6, 9, 11} then 30 else 31)"

definition parse_iso :: "string \<Rightarrow> int option" where
  "parse_iso s =
     (if (length s = 16 \<or> length s = 19 \<and> s ! 16 = CHR '':'')
         \<and> s ! 4 = CHR ''-'' \<and> s ! 7 = CHR ''-'' \<and> s ! 10 = CHR '' '' \<and> s ! 13 = CHR '':''
      then
        (case (number (take 4 s), number (take 2 (drop 5 s)), number (take 2 (drop 8 s)),
               number (take 2 (drop 11 s)), number (take 2 (drop 14 s)),
               (if length s = 16 then Some 0 else number (take 2 (drop 17 s)))) of
           (Some y, Some m, Some d, Some h, Some mi, Some sec) \<Rightarrow>
             if 1 \<le> m \<and> m \<le> 12 \<and> 1 \<le> d \<and> int d \<le> days_in_month (int y) (int m)
                \<and> h < 24 \<and> mi < 60 \<and> sec < 60 \<and> 1678 \<le> y \<and> y \<le> 2261
             then Some ((days_from_civil (int y) (int m) (int d) * 86400
                         + int h * 3600 + int mi * 60 + int sec) * ns_per_second)
             else None
         | _ \<Rightarrow> None)
      else None)"

text \<open>
  One value of \<^verbatim>\<open>pd.to_datetime\<close>: a missing value, the empty string and the strings
  pandas reads as NaT give \<^verbatim>\<open>NaT\<close>; a Timestamp stays; an integer counts nanoseconds
  (a 64-bit value, whose least value stands for NaT); other text goes to the parser.
  \<open>None\<close>: the value does not convert (an unparseable string, a boolean).
\<close>

definition nat_strings :: "string list" where
  "nat_strings = ['''', ''NaT'', ''nat'', ''NAT'', ''nan'', ''NaN'', ''NAN'']"

fun convert_datetime :: "(string \<Rightarrow> int option) \<Rightarrow> cell \<Rightarrow> cell option" where
  "convert_datetime parse (Str s) =
     (if s \<in> set nat_strings then Some NaT else map_option TS (parse s))"
| "convert_datetime parse (TS t) = Some (TS t)"
| "convert_datetime parse (IntV n) =
     (if n = - (2 ^ 63) then Some NaT
      else if - (2 ^ 63) < n \<and> n < 2 ^ 63 then Some (TS n) else None)"
| "convert_datetime parse (BoolV b) = None"
| "convert_datetime parse NoneV = Some NaT"
| "convert_datetime parse NaN = Some NaT"
| "convert_datetime parse NaT = Some NaT"

text \<open>\<^verbatim>\<open>pd.to_datetime(column)\<close> raises at the first value that does not convert.\<close>

fun to_datetime :: "(string \<Rightarrow> int option) \<Rightarrow> cell list \<Rightarrow> exn + cell list" where
  "to_datetime parse [] = Inr []"
| "to_datetime parse (v # vs) =
     (case convert_datetime parse v of
        None \<Rightarrow> Inl (DateParseError v)
      | Some t \<Rightarrow> (case to_datetime parse vs of
                     Inl e \<Rightarrow> Inl e
                   | Inr ts \<Rightarrow> Inr (t # ts)))"

text \<open>
  \<^verbatim>\<open>pd.to_datetime(column, errors="coerce")\<close> never raises: a value that does not convert
  becomes \<^verbatim>\<open>NaT\<close>.
\<close>

text \<open>The values of a datetime column: Timestamps and \<^verbatim>\<open>NaT\<close>.\<close>

definition is_datetime :: "cell \<Rightarrow> bool" where
  "is_datetime v \<longleftrightarrow> v = NaT \<or> (\<exists>t. v = TS t)"

definition coerce_datetime :: "(string \<Rightarrow> int option) \<Rightarrow> cell \<Rightarrow> cell" where
  "coerce_datetime parse v = (case convert_datetime parse v of Some t \<Rightarrow> t | None \<Rightarrow> NaT)"

definition to_datetime_coerce :: "(string \<Rightarrow> int option) \<Rightarrow> cell list \<Rightarrow> cell list" where
  "to_datetime_coerce parse vs = map (coerce_datetime parse) vs"

section \<open>Delimited text\<close>

definition LF :: char where
  "LF = CHR 0x0A"

definition CR :: char where
  "CR = CHR 0x0D"

definition DQUOTE :: char where
  "DQUOTE = CHR 0x22"

subsection \<open>Writing: \<^verbatim>\<open>df.to_csv(index=False)\<close>\<close>

text \<open>
  The text of one value in the export: a missing value is the empty field, a boolean and
  an integer are written as Python's \<^verbatim>\<open>str\<close> writes them.
\<close>

fun csv_text :: "cell \<Rightarrow> string" where
  "csv_text (Str s) = s"
| "csv_text (IntV i) = str_int i"
| "csv_text (BoolV b) = (if b then ''True'' else ''False'')"
| "csv_text (TS t) = str_timestamp t"
| "csv_text NoneV = []"
| "csv_text NaN = []"
| "csv_text NaT = []"

text \<open>
  Minimal quoting: a field that holds the delimiter, the quote character or a line break
  is written between quotes, with each quote doubled. A line that consists of one empty
  field is written as a pair of quotes.
\<close>

definition needs_quote :: "string \<Rightarrow> bool" where
  "needs_quote s \<longleftrightarrow> (\<exists>c \<in> set s. c = CHR '','' \<or> c = DQUOTE \<or> c = LF \<or> c = CR)"

text \<open>The characters that make a field quoted.\<close>

definition special :: "char \<Rightarrow> bool" where
  "special c \<longleftrightarrow> c = CHR '','' \<or> c = DQUOTE \<or> c = LF \<or> c = CR"

definition csv_field :: "string \<Rightarrow> string" where
  "csv_field s =
     (if needs_quote s
      then DQUOTE # concat (map (\<lambda>c. if c = DQUOTE then [DQUOTE, DQUOTE] else [c]) s) @ [DQUOTE]
      else s)"

fun join :: "string \<Rightarrow> string list \<Rightarrow> string" where
  "join sep [] = []"
| "join sep [x] = x"
| "join sep (x # y # ys) = x @ sep @ join sep (y # ys)"

definition csv_line :: "string list \<Rightarrow> string" where
  "csv_line fs = (if fs = [[]] then [DQUOTE, DQUOTE] else join '','' (map csv_field fs)) @ [LF]"

definition to_csv :: "dataframe \<Rightarrow> string" where
  "to_csv df =
     csv_line (columns df)
     @ concat (map (\<lambda>r. csv_line (map (\<lambda>c. csv_text (cell_of r c)) (columns df))) (rows df))"

subsection \<open>Reading: \<^verbatim>\<open>pd.read_csv(file)\<close>\<close>

text \<open>
  The tokenizer of pandas' reader, for the default dialect (comma, double quote, doubled
  quotes inside a quoted field, blank lines skipped), as a state machine over the
  characters of the file.
\<close>

datatype parser_state =
  START_RECORD | START_FIELD | IN_FIELD | IN_QUOTED_FIELD | QUOTE_IN_QUOTED_FIELD
  | EAT_CRNL | EAT_CRNL_NOP

record tokenizer =
  pstate :: parser_state
  word :: string
  line :: "string list"
  lines :: "string list list"

definition push_char :: "char \<Rightarrow> tokenizer \<Rightarrow> tokenizer" where
  "push_char c t = t\<lparr>word := word t @ [c]\<rparr>"

definition end_field :: "tokenizer \<Rightarrow> tokenizer" where
  "end_field t = t\<lparr>line := line t @ [word t], word := []\<rparr>"

definition end_line :: "tokenizer \<Rightarrow> tokenizer" where
  "end_line t = t\<lparr>lines := lines t @ [line t], line := [], pstate := START_RECORD\<rparr>"

definition start_field_char :: "char \<Rightarrow> tokenizer \<Rightarrow> tokenizer" where
  "start_field_char c t =
     (if c = LF then end_line (end_field t)
      else if c = CR then (end_field t)\<lparr>pstate := EAT_CRNL\<rparr>
      else if c = DQUOTE then t\<lparr>pstate := IN_QUOTED_FIELD\<rparr>
      else if c = CHR '','' then (end_field t)\<lparr>pstate := START_FIELD\<rparr>
      else (push_char c t)\<lparr>pstate := IN_FIELD\<rparr>)"

definition start_record_char :: "char \<Rightarrow> tokenizer \<Rightarrow> tokenizer" where
  "start_record_char c t =
     (if c = LF then t
      else if c = CR then t\<lparr>pstate := EAT_CRNL_NOP\<rparr>
      else start_field_char c (t\<lparr>pstate := START_FIELD\<rparr>))"

definition step :: "tokenizer \<Rightarrow> char \<Rightarrow> tokenizer" where
  "step t c =
     (case pstate t of
        START_RECORD \<Rightarrow> start_record_char c t
      | START_FIELD \<Rightarrow> start_field_char c t
      | IN_FIELD \<Rightarrow>
          (if c = LF then end_line (end_field t)
           else if c = CR then (end_field t)\<lparr>pstate := EAT_CRNL\<rparr>
           else if c = CHR '','' then (end_field t)\<lparr>pstate := START_FIELD\<rparr>
           else push_char c t)
      | IN_QUOTED_FIELD \<Rightarrow>
          (if c = DQUOTE then t\<lparr>pstate := QUOTE_IN_QUOTED_FIELD\<rparr> else push_char c t)
      | QUOTE_IN_QUOTED_FIELD \<Rightarrow>
          (if c = DQUOTE then (push_char c t)\<lparr>pstate := IN_QUOTED_FIELD\<rparr>
           else if c = CHR '','' then (end_field t)\<lparr>pstate := START_FIELD\<rparr>
           else if c = LF then end_line (end_field t)
           else if c = CR then (end_field t)\<lparr>pstate := EAT_CRNL\<rparr>
           else (push_char c t)\<lparr>pstate := IN_FIELD\<rparr>)
      | EAT_CRNL \<Rightarrow>
          (if c = LF then end_line t
           else if c = CHR '','' then (end_field (end_line t))\<lparr>pstate := START_FIELD\<rparr>
           else start_record_char c (end_line t))
      | EAT_CRNL_NOP \<Rightarrow>
          (if c = LF \<or> c = CHR '','' then t\<lparr>pstate := START_RECORD\<rparr>
           else start_record_char c (t\<lparr>pstate := START_RECORD\<rparr>)))"

text \<open>The end of the file closes the last line; inside a quoted field it is an error.\<close>

definition handle_eof :: "tokenizer \<Rightarrow> exn + string list list" where
  "handle_eof t =
     (case pstate t of
        START_RECORD \<Rightarrow> Inr (lines t)
      | EAT_CRNL_NOP \<Rightarrow> Inr (lines t)
      | IN_QUOTED_FIELD \<Rightarrow> Inl ParserError
      | EAT_CRNL \<Rightarrow> Inr (lines (end_line t))
      | _ \<Rightarrow> Inr (lines (end_line (end_field t))))"

definition tokenize :: "string \<Rightarrow> exn + string list list" where
  "tokenize text =
     handle_eof (foldl step \<lparr>pstate = START_RECORD, word = [], line = [], lines = []\<rparr> text)"

text \<open>
  The values of a column are converted together: the fields pandas reads as missing
  become \<^verbatim>\<open>nan\<close>; if every other field is an integer the column is one of integers, if
  every other field is a truth value it is one of booleans, and else the fields stay
  text. (pandas would turn an integer column with a missing field, and any decimal
  fraction, into floating point; the model keeps the integers and the text.)
\<close>

definition na_values :: "string list" where
  "na_values = [[], ''#N/A'', ''#N/A N/A'', ''#NA'', ''-1.#IND'', ''-1.#QNAN'', ''-NaN'',
     ''-nan'', ''1.#IND'', ''1.#QNAN'', ''<NA>'', ''N/A'', ''NA'', ''NULL'', ''NaN'', ''None'',
     ''n/a'', ''nan'', ''null'']"

definition parse_int :: "string \<Rightarrow> int option" where
  "parse_int s =
     (let v = (case s of
                 c # cs \<Rightarrow> (if c = CHR ''-'' then map_option (\<lambda>n. - int n) (number cs)
                            else if c = CHR ''+'' then map_option int (number cs)
                            else map_option int (number s))
               | [] \<Rightarrow> None)
      in case v of
           Some i \<Rightarrow> (if - (2 ^ 63) \<le> i \<and> i < 2 ^ 63 then Some i else None)
         | None \<Rightarrow> None)"

definition parse_bool :: "string \<Rightarrow> bool option" where
  "parse_bool s =
     (if s \<in> set [''True'', ''TRUE'', ''true''] then Some True
      else if s \<in> set [''False'', ''FALSE'', ''false''] then Some False
      else None)"

datatype kind = KInt | KBool | KText

definition infer_kind :: "string list \<Rightarrow> kind" where
  "infer_kind fs =
     (let present = filter (\<lambda>f. f \<notin> set na_values) fs
      in if list_all (\<lambda>f. parse_int f \<noteq> None) present then KInt
         else if list_all (\<lambda>f. parse_bool f \<noteq> None) present then KBool
         else KText)"

definition convert_field :: "kind \<Rightarrow> string \<Rightarrow> cell" where
  "convert_field k f =
     (if f \<in> set na_values then NaN
      else case k of
             KInt \<Rightarrow> (case parse_int f of Some i \<Rightarrow> IntV i | None \<Rightarrow> Str f)
           | KBool \<Rightarrow> (case parse_bool f of Some b \<Rightarrow> BoolV b | None \<Rightarrow> Str f)
           | KText \<Rightarrow> Str f)"

text \<open>
  The first line names the columns. A file without any line raises
  \<^verbatim>\<open>EmptyDataError\<close>; a line with more fields than the header raises
  \<^verbatim>\<open>ParserError\<close>; a shorter line is filled with missing values. (pandas renames
  a repeated or empty header name; the model leaves the names as they are written.)
\<close>

definition read_csv :: "string \<Rightarrow> exn + dataframe" where
  "read_csv text =
     (case tokenize text of
        Inl e \<Rightarrow> Inl e
      | Inr [] \<Rightarrow> Inl EmptyDataError
      | Inr (header # body) \<Rightarrow>
          if \<exists>l \<in> set body. length header < length l then Inl ParserError
          else
            let n = length header;
                padded = map (\<lambda>l. l @ replicate (n - length l) []) body;
                kinds = map (\<lambda>j. infer_kind (map (\<lambda>l. l ! j) padded)) [0..<n]
            in Inr \<lparr>columns = header,
                    rows = map (\<lambda>l. zip header (map (\<lambda>(k, f). convert_field k f) (zip kinds l)))
                             padded\<rparr>)"

section \<open>The report store and ingestion\<close>

text \<open>
  \<^verbatim>\<open>st.session_state\<close>: the list of reports and the counter that names the upload
  widget.
\<close>

record session =
  reports :: "report list"
  uploader_key :: nat

text \<open>What the page tells the user after an upload or a submission.\<close>

datatype notice =
    MissingColumns "string list"
  | ProcessingError exn
  | UploadMerged
  | ReportSubmitted

definition required_columns :: "string list" where
  "required_columns = [''timestamp'', ''address'', ''zipcode'', ''description'', ''concerns'',
     ''type'', ''used'', ''symptoms'', ''alert'', ''photo_path'']"

text \<open>
  The upload handler of \<^verbatim>\<open>report_tab\<close> (lines 64 to 77). Any exception is caught and
  reported; only the last branch changes the session.
\<close>

definition upload_handler ::
  "(string \<Rightarrow> int option) \<Rightarrow> string \<Rightarrow> session \<Rightarrow> session \<times> notice" where
  "upload_handler parse uploaded_file s =
     (case read_csv uploaded_file of
        Inl e \<Rightarrow> (s, ProcessingError e)
      | Inr uploaded_df \<Rightarrow>
          let missing_columns = filter (\<lambda>c. c \<notin> set (columns uploaded_df)) required_columns
          in if missing_columns \<noteq> [] then (s, MissingColumns missing_columns)
             else
               (case col uploaded_df ''timestamp'' of
                  Inl e \<Rightarrow> (s, ProcessingError e)
                | Inr ts \<Rightarrow>
                    let df = set_column ''timestamp'' (to_datetime_coerce parse ts) uploaded_df
                    in (s\<lparr>reports := reports s @ to_dict_records df,
                          uploader_key := uploader_key s + 1\<rparr>, UploadMerged)))"

text \<open>
  The form of \<^verbatim>\<open>report_tab\<close> (lines 92 to 113). \<open>now\<close> is the clock's reading as
  (year, month, day, hour, minute, second); a photo is given by its file name. Writing
  the photo's bytes to the image directory is not modelled.
\<close>

record form =
  address :: string
  zipcode :: string
  photo :: "string option"
  description :: string
  concerns :: "string list"
  source_type :: string
  used :: string
  symptoms :: string
  alert_others :: bool

type_synonym datetime = "int \<times> int \<times> int \<times> int \<times> int \<times> int"

definition IMAGE_DIR :: string where
  "IMAGE_DIR = ''uploaded_images''"

definition submit_report :: "datetime \<Rightarrow> form \<Rightarrow> session \<Rightarrow> session \<times> notice" where
  "submit_report now f s =
     (case now of (y, mo, d, h, mi, sec) \<Rightarrow>
        let photo_path =
              (case photo f of
                 None \<Rightarrow> NoneV
               | Some name \<Rightarrow>
                   Str (IMAGE_DIR @ ''/'' @ pad 4 y @ pad 2 mo @ pad 2 d @ ''_''
                        @ pad 2 h @ pad 2 mi @ pad 2 sec @ ''_'' @ name));
            report =
              [(''timestamp'',
                  Str (pad 4 y @ ''-'' @ pad 2 mo @ ''-'' @ pad 2 d @ '' '' @ pad 2 h @ '':'' @ pad 2 mi)),
               (''address'', Str (address f)),
               (''zipcode'', Str (zipcode f)),
               (''description'', Str (description f)),
               (''concerns'', Str (join '', '' (concerns f))),
               (''type'', Str (source_type f)),
               (''used'', Str (used f)),
               (''symptoms'', Str (symptoms f)),
               (''alert'', BoolV (alert_others f)),
               (''photo_path'', photo_path)]
        in (s\<lparr>reports := reports s @ [report]\<rparr>, ReportSubmitted))"

section \<open>Views\<close>

text \<open>Python's \<^verbatim>\<open>str\<close> of a value, which \<^verbatim>\<open>astype(str)\<close> applies to each one.\<close>

fun astype_str :: "cell \<Rightarrow> string" where
  "astype_str (Str s) = s"
| "astype_str (IntV i) = str_int i"
| "astype_str (BoolV b) = (if b then ''True'' else ''False'')"
| "astype_str (TS t) = str_timestamp t"
| "astype_str NoneV = ''None''"
| "astype_str NaN = ''nan''"
| "astype_str NaT = ''NaT''"

subsection \<open>Gallery\<close>

text \<open>
  \<^verbatim>\<open>df.sort_values(by=..., ascending=...)\<close> is called without \<^verbatim>\<open>kind\<close>, so pandas sorts
  the keys that are present with numpy's \<^verbatim>\<open>argsort(kind="quicksort")\<close>. numpy documents
  of that algorithm only that the indices it returns put the keys in order, not how it
  arranges equal keys. It is the parameter \<open>argsort\<close> of the model, and \<open>argsort_ok\<close> is
  the documented contract: the result is a permutation of the positions that sorts the
  keys.
\<close>

definition argsort_ok :: "(int list \<Rightarrow> nat list) \<Rightarrow> bool" where
  "argsort_ok argsort \<longleftrightarrow>
     (\<forall>ks. distinct (argsort ks) \<and> set (argsort ks) = {..<length ks}
           \<and> sorted (map ((!) ks) (argsort ks)))"

text \<open>The integer behind a value of a datetime column (the column holds \<open>TS\<close> and \<open>NaT\<close> only).\<close>

fun ts_value :: "cell \<Rightarrow> int" where
  "ts_value (TS t) = t"
| "ts_value _ = 0"

text \<open>
  pandas' \<^verbatim>\<open>nargsort\<close> with \<^verbatim>\<open>na_position="last"\<close>: the positions of the missing keys
  are set aside and appended in their own order; the other keys are sorted, for a
  descending sort after reversing them and with the result reversed again.
\<close>

definition nargsort :: "(int list \<Rightarrow> nat list) \<Rightarrow> bool \<Rightarrow> cell list \<Rightarrow> nat list" where
  "nargsort argsort ascending items =
     (let idx = [0..<length items];
          non_nan_idx = filter (\<lambda>i. \<not> isna (items ! i)) idx;
          nan_idx = filter (\<lambda>i. isna (items ! i)) idx;
          non_nans = map (\<lambda>i. ts_value (items ! i)) non_nan_idx;
          non_nans' = (if ascending then non_nans else rev non_nans);
          non_nan_idx' = (if ascending then non_nan_idx else rev non_nan_idx);
          indexer = map (\<lambda>j. non_nan_idx' ! j) (argsort non_nans');
          indexer' = (if ascending then indexer else rev indexer)
      in indexer' @ nan_idx)"

definition sort_values ::
  "(int list \<Rightarrow> nat list) \<Rightarrow> string \<Rightarrow> bool \<Rightarrow> dataframe \<Rightarrow> exn + dataframe" where
  "sort_values argsort by ascending df =
     (case col df by of
        Inl e \<Rightarrow> Inl e
      | Inr items \<Rightarrow> Inr (df\<lparr>rows := map (\<lambda>i. rows df ! i) (nargsort argsort ascending items)\<rparr>))"

text \<open>
  \<^verbatim>\<open>gallery_tab\<close>, lines 117 to 130: the reports the gallery shows, in the order it shows
  them, for the choices of the two widgets. With no report the page shows a notice
  instead, and the list is empty. Laying the reports out in rows of three is
  presentation and not modelled.
\<close>

definition gallery_tab ::
  "(string \<Rightarrow> int option) \<Rightarrow> (int list \<Rightarrow> nat list) \<Rightarrow> report list \<Rightarrow> string \<Rightarrow> string
     \<Rightarrow> exn + report list" where
  "gallery_tab parse argsort records selected_zip sort_option =
     (let df = DataFrame records
      in if df_empty df then Inr []
         else
           (case col df ''zipcode'' of
              Inl e \<Rightarrow> Inl e
            | Inr zs \<Rightarrow>
                let df1 = set_column ''zipcode'' (map (\<lambda>z. Str (astype_str z)) zs) df
                in (case col df1 ''timestamp'' of
                      Inl e \<Rightarrow> Inl e
                    | Inr ts \<Rightarrow>
                        let df2 = set_column ''timestamp'' (to_datetime_coerce parse ts) df1;
                            df3 = (if selected_zip \<noteq> ''All''
                                   then df2\<lparr>rows := filter (\<lambda>r. cell_of r ''zipcode'' = Str selected_zip)
                                                        (rows df2)\<rparr>
                                   else df2)
                        in (case sort_values argsort ''timestamp''
                                   (sort_option = ''Oldest First'') df3 of
                              Inl e \<Rightarrow> Inl e
                            | Inr df4 \<Rightarrow> Inr (to_dict_records df4)))))"

subsection \<open>Table and export\<close>

text \<open>\<^verbatim>\<open>table_tab\<close>, lines 160 to 163: the table shown and the text of the download.\<close>

definition table_df :: "report list \<Rightarrow> dataframe" where
  "table_df records = drop_column ''photo_path'' (DataFrame records)"

definition export_csv :: "report list \<Rightarrow> string" where
  "export_csv records = to_csv (table_df records)"

subsection \<open>Trends\<close>

text \<open>
  \<^verbatim>\<open>.dt.to_period("W").astype(str)\<close> on one value. The weekly period of pandas ends on
  Sunday, so a day belongs to the week from its Monday to its Sunday, and the period
  prints as the two dates. \<^verbatim>\<open>NaT\<close> prints as the text \<^verbatim>\<open>NaT\<close>. Day 0 is a Thursday.
\<close>

definition week_start :: "int \<Rightarrow> int" where
  "week_start day = day - (day + 3) mod 7"

fun week_str :: "cell \<Rightarrow> string" where
  "week_str (TS t) =
     (let start = week_start (t div ns_per_day) in fmt_date start @ ''/'' @ fmt_date (start + 6))"
| "week_str _ = ''NaT''"

text \<open>
  The order in which \<^verbatim>\<open>groupby\<close> lists the values of a key column: numbers before text,
  numbers by value, text by code point.
\<close>

fun cell_rank :: "cell \<Rightarrow> nat \<times> int \<times> string" where
  "cell_rank (IntV i) = (0, i, [])"
| "cell_rank (BoolV b) = (0, if b then 1 else 0, [])"
| "cell_rank (Str s) = (1, 0, s)"
| "cell_rank (TS t) = (2, t, [])"
| "cell_rank _ = (3, 0, [])"

text \<open>
  \<^verbatim>\<open>data.groupby(['zipcode', 'week']).size().reset_index(name='report_count')\<close>: one row
  for each pair of key values that occurs, in the order of the keys, with the number of
  rows that have the pair. By default \<^verbatim>\<open>groupby\<close> leaves out the rows in which a key is
  missing.
\<close>

definition group_keys :: "dataframe \<Rightarrow> (cell \<times> cell) list" where
  "group_keys data =
     filter (\<lambda>(z, w). \<not> isna z \<and> \<not> isna w)
       (map (\<lambda>r. (cell_of r ''zipcode'', cell_of r ''week'')) (rows data))"

definition groupby_size :: "dataframe \<Rightarrow> report list" where
  "groupby_size data =
     (let keys = group_keys data
      in map (\<lambda>(z, w). [(''zipcode'', z), (''week'', w),
                         (''report_count'', IntV (int (count_list keys (z, w))))])
           (sort_key (\<lambda>(z, w). (cell_rank z, cell_rank w)) (remdups keys)))"

text \<open>
  Lines 167 to 171 of \<^verbatim>\<open>trends_tab\<close>, and lines 193 to 197 of \<^verbatim>\<open>ai_analysis_tab\<close>, which
  are the same: the weekly counts per zip code. Here \<^verbatim>\<open>pd.to_datetime\<close> is called
  without \<^verbatim>\<open>errors="coerce"\<close>, and what it raises is not caught. With no report the
  page shows a notice and there are no counts.
\<close>

definition trend_data :: "(string \<Rightarrow> int option) \<Rightarrow> report list \<Rightarrow> exn + report list" where
  "trend_data parse records =
     (let data = DataFrame records
      in if df_empty data then Inr []
         else
           (case col data ''timestamp'' of
              Inl e \<Rightarrow> Inl e
            | Inr ts \<Rightarrow>
                (case to_datetime parse ts of
                   Inl e \<Rightarrow> Inl e
                 | Inr ts' \<Rightarrow>
                     let data1 = set_column ''timestamp'' ts' data;
                         data2 = set_column ''week'' (map (\<lambda>t. Str (week_str t)) ts') data1
                     in if ''zipcode'' \<in> set (columns data2) then Inr (groupby_size data2)
                        else Inl (KeyError ''zipcode''))))"

subsection \<open>Summary request\<close>

text \<open>\<^verbatim>\<open>df.tail(n)\<close>: the last \<open>n\<close> rows, or all of them if there are fewer.\<close>

definition tail :: "nat \<Rightarrow> 'a list \<Rightarrow> 'a list" where
  "tail n xs = drop (length xs - n) xs"

text \<open>Line 200: \<^verbatim>\<open>trend_data[trend_data['zipcode'] == selected_zip].tail(12)\<close> as records.\<close>

definition weekly_summary :: "report list \<Rightarrow> cell \<Rightarrow> report list" where
  "weekly_summary trend selected_zip =
     tail 12 (filter (\<lambda>r. cell_of r ''zipcode'' = selected_zip) trend)"

text \<open>Python's \<^verbatim>\<open>repr\<close> of a list of dicts, which the f-string of line 205 writes.\<close>

definition hex_digit :: "nat \<Rightarrow> char" where
  "hex_digit n = ''0123456789abcdef'' ! (n mod 16)"

definition repr_char :: "char \<Rightarrow> char \<Rightarrow> string" where
  "repr_char q c =
     (if c = CHR 0x5C then [CHR 0x5C, CHR 0x5C]
      else if c = q then [CHR 0x5C, q]
      else if c = LF then [CHR 0x5C, CHR ''n'']
      else if c = CR then [CHR 0x5C, CHR ''r'']
      else if c = CHR 0x09 then [CHR 0x5C, CHR ''t'']
      else if (of_char c :: nat) < 32 \<or> (of_char c :: nat) = 127
      then [CHR 0x5C, CHR ''x'', hex_digit (of_char c div 16), hex_digit (of_char c mod 16)]
      else [c])"

definition repr_str :: "string \<Rightarrow> string" where
  "repr_str s =
     (let q = (if CHR 0x27 \<in> set s \<and> DQUOTE \<notin> set s then DQUOTE else CHR 0x27)
      in q # concat (map (repr_char q) s) @ [q])"

fun repr_cell :: "cell \<Rightarrow> string" where
  "repr_cell (Str s) = repr_str s"
| "repr_cell (IntV i) = str_int i"
| "repr_cell (BoolV b) = (if b then ''True'' else ''False'')"
| "repr_cell (TS t) = ''Timestamp('' @ repr_str (str_timestamp t) @ '')''"
| "repr_cell NoneV = ''None''"
| "repr_cell NaN = ''nan''"
| "repr_cell NaT = ''NaT''"

definition repr_dict :: "report \<Rightarrow> string" where
  "repr_dict r = ''{'' @ join '', '' (map (\<lambda>(k, v). repr_str k @ '': '' @ repr_cell v) r) @ ''}''"

definition repr_records :: "report list \<Rightarrow> string" where
  "repr_records rs = ''['' @ join '', '' (map repr_dict rs) @ '']''"

text \<open>The request of lines 201 to 215.\<close>

record request =
  model :: string
  messages :: "(string \<times> string) list"
  max_tokens :: nat
  temperature :: string

definition system_prompt :: "cell \<Rightarrow> string" where
  "system_prompt selected_zip =
     [LF] @ replicate 12 CHR '' ''
     @ ''You are analyzing water quality reports for ZIP code '' @ astype_str selected_zip @ ''.''
     @ [LF] @ replicate 12 CHR '' ''
     @ ''Summarize the major issues, repeated trends, and any areas of concern.''
     @ [LF] @ replicate 12 CHR '' ''"

definition user_prompt :: "report list \<Rightarrow> string" where
  "user_prompt summary = ''Report data: '' @ repr_records summary"

definition summary_request :: "report list \<Rightarrow> cell \<Rightarrow> request" where
  "summary_request trend selected_zip =
     \<lparr>model = ''gpt-4'',
      messages = [(''system'', system_prompt selected_zip),
                  (''user'', user_prompt (weekly_summary trend selected_zip))],
      max_tokens = 300,
      temperature = ''0.5''\<rparr>"

text \<open>
  \<^verbatim>\<open>ai_analysis_tab\<close>, lines 193 to 220. \<open>chat\<close> is the remote service
  (\<^verbatim>\<open>client.chat.completions.create\<close>): it answers with a text or raises, and what it
  raises is caught and shown.
\<close>

datatype analysis = NoData | NotAsked | Summary string | AnalysisFailed exn

definition ai_analysis_tab ::
  "(string \<Rightarrow> int option) \<Rightarrow> (request \<Rightarrow> exn + string) \<Rightarrow> report list \<Rightarrow> cell \<Rightarrow> bool
     \<Rightarrow> exn + analysis" where
  "ai_analysis_tab parse chat records selected_zip analyze =
     (if df_empty (DataFrame records) then Inr NoData
      else
        (case trend_data parse records of
           Inl e \<Rightarrow> Inl e
         | Inr trend \<Rightarrow>
             if analyze
             then (case chat (summary_request trend selected_zip) of
                     Inl e \<Rightarrow> Inr (AnalysisFailed e)
                   | Inr response \<Rightarrow> Inr (Summary response))
             else Inr NotAsked))"

section \<open>Notions used to state the properties\<close>

text \<open>A report has the ten fields that both ways of ingestion give it.\<close>

definition report_ok :: "report \<Rightarrow> bool" where
  "report_ok r \<longleftrightarrow> set required_columns \<subseteq> fst ` set r"

text \<open>
  The (zipcode, week) pair of a report: its zip code as stored, and the week of its
  timestamp; and the pairs observed in a store.
\<close>

definition pair_of :: "(string \<Rightarrow> int option) \<Rightarrow> report \<Rightarrow> cell \<times> cell" where
  "pair_of parse r =
     (cell_of r ''zipcode'', Str (week_str (coerce_datetime parse (cell_of r ''timestamp''))))"

definition observed_pairs :: "(string \<Rightarrow> int option) \<Rightarrow> report list \<Rightarrow> (cell \<times> cell) set" where
  "observed_pairs parse records = pair_of parse ` set records"

text \<open>A WeeklyAggregate entry, as the row of the trend table.\<close>

definition bucket :: "cell \<times> cell \<Rightarrow> nat \<Rightarrow> report" where
  "bucket k n = [(''zipcode'', fst k), (''week'', snd k), (''report_count'', IntV (int n))]"

text \<open>The pairs that the trend table lists.\<close>

definition trend_pairs :: "report list \<Rightarrow> (cell \<times> cell) set" where
  "trend_pairs trend = (\<lambda>r. (cell_of r ''zipcode'', cell_of r ''week'')) ` set trend"

subsection \<open>Weeks in time\<close>

text \<open>
  Two steps of \<open>civil_from_days\<close>, named for the proofs about the order of dates: the year
  of a 400-year era (counted from 1 March) in which a day of the era falls, and the first
  day of such a year.
\<close>

definition yoe_of :: "int \<Rightarrow> int" where
  "yoe_of doe = (doe - doe div 1460 + doe div 36524 - doe div 146096) div 365"

definition year_start :: "int \<Rightarrow> int" where
  "year_start yoe = 365 * yoe + yoe div 4 - yoe div 100"

text \<open>
  The days from 0000-03-01 to 9600-02-29, whose year is written with four digits; and the
  values a Timestamp of pandas can take, a signed 64-bit count of nanoseconds (the least
  64-bit value stands for \<^verbatim>\<open>NaT\<close>).
\<close>

definition date_range :: "int \<Rightarrow> bool" where
  "date_range day \<longleftrightarrow> - 719468 \<le> day \<and> day < 2786860"

definition timestamp_range :: "int \<Rightarrow> bool" where
  "timestamp_range t \<longleftrightarrow> - (2 ^ 63) < t \<and> t < 2 ^ 63"

text \<open>
  The reports that count for a zip code (none for a missing zip code, which \<^verbatim>\<open>groupby\<close>
  leaves out), the Mondays of the weeks in which the zip code has a dated report, and
  whether it has a report without date.
\<close>

definition reports_of :: "report list \<Rightarrow> cell \<Rightarrow> report list" where
  "reports_of records z = (if isna z then [] else filter (\<lambda>r. cell_of r ''zipcode'' = z) records)"

fun week_of :: "cell \<Rightarrow> int option" where
  "week_of (TS t) = Some (week_start (t div ns_per_day))"
| "week_of _ = None"

definition dated_weeks :: "(string \<Rightarrow> int option) \<Rightarrow> report list \<Rightarrow> cell \<Rightarrow> int set" where
  "dated_weeks parse records z =
     set (List.map_filter (\<lambda>r. week_of (coerce_datetime parse (cell_of r ''timestamp'')))
            (reports_of records z))"

definition undated :: "(string \<Rightarrow> int option) \<Rightarrow> report list \<Rightarrow> cell \<Rightarrow> bool" where
  "undated parse records z \<longleftrightarrow>
     NaT \<in> set (map (\<lambda>r. coerce_datetime parse (cell_of r ''timestamp'')) (reports_of records z))"

text \<open>The week key of the week that starts on a given Monday.\<close>

definition week_key :: "int \<Rightarrow> string" where
  "week_key monday = week_str (TS (monday * ns_per_day))"

text \<open>
  The week keys of a zip code in the order of time: the dated weeks from the earliest to
  the latest, then the key \<^verbatim>\<open>NaT\<close> if the zip code has a report without date.
\<close>

definition week_keys :: "(string \<Rightarrow> int option) \<Rightarrow> report list \<Rightarrow> cell \<Rightarrow> string list" where
  "week_keys parse records z =
     map week_key (sorted_list_of_set (dated_weeks parse records z))
     @ (if undated parse records z then [''NaT''] else [])"

text \<open>
  The text of one entry in Python's rendering of the list of entries:
  \<^verbatim>\<open>{'zipcode': z, 'week': 'w', 'report_count': n}\<close>.
\<close>

definition bucket_text :: "cell \<Rightarrow> string \<Rightarrow> nat \<Rightarrow> string" where
  "bucket_text z w n =
     ''{'zipcode': '' @ repr_cell z @ '', 'week': '' @ [CHR 0x27] @ w @ [CHR 0x27]
     @ '', 'report_count': '' @ str_int (int n) @ ''}''"

section \<open>Example inputs\<close>

text \<open>An uploaded file with the nine columns of the export and one row.\<close>

definition upload_without_photo_path :: string where
  "upload_without_photo_path =
     ''timestamp,address,zipcode,description,concerns,type,used,symptoms,alert'' @ [LF]
     @ ''2024-01-01 10:00,1 Main St,10001,murky,Foam,Faucet,Yes,none,True'' @ [LF]"

text \<open>An uploaded file with the ten columns and two rows; the second has no date.\<close>

definition upload_two_rows :: string where
  "upload_two_rows =
     ''timestamp,address,zipcode,description,concerns,type,used,symptoms,alert,photo_path'' @ [LF]
     @ ''2024-01-01 10:00,1 Main St,10001,murky,Foam,Faucet,Yes,none,True,a.png'' @ [LF]
     @ ''not a date,2 Side St,10002,clear,Bugs,Other,No,none,False,b.png'' @ [LF]"

definition empty_session :: session where
  "empty_session = \<lparr>reports = [], uploader_key = 0\<rparr>"

text \<open>A report with a given timestamp and zip code, and a store of four reports.\<close>

definition example_report :: "cell \<Rightarrow> cell \<Rightarrow> report" where
  "example_report ts z =
     [(''timestamp'', ts), (''address'', Str ''1 Main St''), (''zipcode'', z),
      (''description'', Str ''murky''), (''concerns'', Str ''Foam''), (''type'', Str ''Faucet''),
      (''used'', Str ''No''), (''symptoms'', Str []), (''alert'', BoolV False),
      (''photo_path'', NoneV)]"

definition example_store :: "report list" where
  "example_store =
     [example_report (Str ''2024-01-10 10:00'') (Str ''10001''),
      example_report (Str ''2024-01-02 09:00'') (Str ''10002''),
      example_report NaT (IntV 10001),
      example_report (Str ''2024-01-03 08:00'') (Str ''10001'')]"

text \<open>A sorting algorithm that meets the contract of \<open>argsort\<close>: insertion sort.\<close>

definition insertion_argsort :: "int list \<Rightarrow> nat list" where
  "insertion_argsort ks = sort_key (\<lambda>i. ks ! i) [0..<length ks]"

text \<open>
  Five reports for zip code 10001: three in the week of Monday 2024-01-01 and two in the
  week of Monday 2024-01-08.
\<close>

definition weekly_store :: "report list" where
  "weekly_store =
     [example_report (Str ''2024-01-08 12:00'') (Str ''10001''),
      example_report (Str ''2024-01-01 00:00'') (Str ''10001''),
      example_report (Str ''2024-01-03 08:00'') (Str ''10001''),
      example_report (Str ''2024-01-14 23:59'') (Str ''10001''),
      example_report (Str ''2024-01-07 23:59'') (Str ''10001'')]"

text \<open>Stores with one imported report that has no zip code.\<close>

definition no_zip_store :: "report list" where
  "no_zip_store = [example_report (Str ''2024-01-03 08:00'') NaN]"

definition no_zip_no_date_store :: "report list" where
  "no_zip_no_date_store = [example_report NaT NaN]"


text \<open>A store that holds one report, submitted through the form.\<close>

definition example_form :: form where
  "example_form =
     \<lparr>address = ''12 Main St'', zipcode = ''01234'', photo = None, description = ''murky'',
      concerns = [''Foam'', ''Bugs''], source_type = ''Faucet'', used = ''Yes'', symptoms = [],
      alert_others = True\<rparr>"

definition submitted_store :: "report list" where
  "submitted_store = reports (fst (submit_report (2024, 1, 5, 9, 3, 7) example_form empty_session))"

text \<open>
  Twelve imported reports for zip code 10001, one on each Monday from 2024-01-01 to
  2024-03-18, newest first, after one report for the same zip code without timestamp.
\<close>

definition twelve_weeks_undated :: "report list" where
  "twelve_weeks_undated =
     example_report NaT (Str ''10001'')
     # map (\<lambda>k. example_report (TS ((19723 + 7 * int k) * ns_per_day)) (Str ''10001''))
         (rev [0..<12])"

text \<open>A service that answers with the user message it was sent.\<close>

definition echo :: "request \<Rightarrow> exn + string" where
  "echo req = Inr (snd (last (messages req)))"

section \<open>Evaluation and helper lemmas\<close>

lemmas tokenizer_defs = tokenize_def step_def start_record_char_def start_field_char_def
  push_char_def end_field_def end_line_def handle_eof_def LF_def CR_def DQUOTE_def

lemmas infer_defs = infer_kind_def convert_field_def na_values_def parse_int_def parse_bool_def
  digit_val_def

lemma map_zip_same: "map (\<lambda>(v, r). g v r) (zip (map f xs) xs) = map (\<lambda>r. g (f r) r) xs"
  by (induction xs) auto

lemma cell_of_update: "cell_of (AList.update k v r) c = (if c = k then v else cell_of r c)"
  by (simp add: cell_of_def update_conv')

lemma upload_merged:
  assumes "read_csv uploaded_file = Inr df"
    and "set required_columns \<subseteq> set (columns df)"
  shows "upload_handler parse uploaded_file s =
           (s\<lparr>reports := reports s @ map (\<lambda>r. AList.update ''timestamp''
                    (coerce_datetime parse (cell_of r ''timestamp'')) r) (rows df),
               uploader_key := uploader_key s + 1\<rparr>, UploadMerged)"
proof -
  have "filter (\<lambda>c. c \<notin> set (columns df)) required_columns = []"
    using assms(2) by (auto simp: filter_empty_conv)
  moreover have "''timestamp'' \<in> set (columns df)"
    using assms(2) by (auto simp: required_columns_def)
  ultimately show ?thesis
    using assms(1)
    by (simp add: upload_handler_def col_def set_column_def to_dict_records_def
        to_datetime_coerce_def map_zip_same zip_map1 case_prod_unfold
        zip_same_conv_map)
qed

lemma upt9: "[0..<9] = [0,1,2,3,4,5,6,7,8]" by (simp add: upt_rec)
lemma upt10: "[0..<10] = [0,1,2,3,4,5,6,7,8,9]" by (simp add: upt_rec)

lemma tokenize_without_photo_path:
  "tokenize upload_without_photo_path =
     Inr [[''timestamp'', ''address'', ''zipcode'', ''description'', ''concerns'', ''type'',
           ''used'', ''symptoms'', ''alert''],
          [''2024-01-01 10:00'', ''1 Main St'', ''10001'', ''murky'', ''Foam'', ''Faucet'',
           ''Yes'', ''none'', ''True'']]"
  by (simp add: upload_without_photo_path_def tokenizer_defs)

lemma read_without_photo_path:
  "read_csv upload_without_photo_path =
     Inr \<lparr>columns = [''timestamp'', ''address'', ''zipcode'', ''description'', ''concerns'',
                      ''type'', ''used'', ''symptoms'', ''alert''],
           rows = [[(''timestamp'', Str ''2024-01-01 10:00''), (''address'', Str ''1 Main St''),
                    (''zipcode'', IntV 10001), (''description'', Str ''murky''),
                    (''concerns'', Str ''Foam''), (''type'', Str ''Faucet''),
                    (''used'', Str ''Yes''), (''symptoms'', Str ''none''),
                    (''alert'', BoolV True)]]\<rparr>"
  by (simp add: read_csv_def tokenize_without_photo_path upt9 infer_defs) blast

lemma tokenize_two_rows:
  "tokenize upload_two_rows =
     Inr [[''timestamp'', ''address'', ''zipcode'', ''description'', ''concerns'', ''type'',
           ''used'', ''symptoms'', ''alert'', ''photo_path''],
          [''2024-01-01 10:00'', ''1 Main St'', ''10001'', ''murky'', ''Foam'', ''Faucet'',
           ''Yes'', ''none'', ''True'', ''a.png''],
          [''not a date'', ''2 Side St'', ''10002'', ''clear'', ''Bugs'', ''Other'',
           ''No'', ''none'', ''False'', ''b.png'']]"
  by (simp add: upload_two_rows_def tokenizer_defs)

lemma read_two_rows:
  "read_csv upload_two_rows =
     Inr \<lparr>columns = required_columns,
           rows = [[(''timestamp'', Str ''2024-01-01 10:00''), (''address'', Str ''1 Main St''),
                    (''zipcode'', IntV 10001), (''description'', Str ''murky''),
                    (''concerns'', Str ''Foam''), (''type'', Str ''Faucet''),
                    (''used'', Str ''Yes''), (''symptoms'', Str ''none''),
                    (''alert'', BoolV True), (''photo_path'', Str ''a.png'')],
                   [(''timestamp'', Str ''not a date''), (''address'', Str ''2 Side St''),
                    (''zipcode'', IntV 10002), (''description'', Str ''clear''),
                    (''concerns'', Str ''Bugs''), (''type'', Str ''Other''),
                    (''used'', Str ''No''), (''symptoms'', Str ''none''),
                    (''alert'', BoolV False), (''photo_path'', Str ''b.png'')]]\<rparr>"
  by (simp add: read_csv_def tokenize_two_rows upt10 infer_defs required_columns_def) blast

lemma parse_iso_example: "parse_iso ''2024-01-01 10:00'' = Some 1704103200000000000"
  by (simp add: parse_iso_def digit_val_def days_in_month_def days_from_civil_def
      ns_per_second_def)

lemma parse_iso_not_a_date: "parse_iso ''not a date'' = None"
  by (simp add: parse_iso_def)


section \<open>The order of dates\<close>

text \<open>
  \<open>civil_from_days\<close> is strictly increasing in the lexicographic order of (year, month,
  day), and so is the text of a date with a four-digit year: the order of the week keys
  of dated weeks is the order of time.
\<close>

lemma days_mono: "a \<le> b \<Longrightarrow> a - a div 1460 \<le> b - b div (1460::int)"
  by arith

lemma yoe_of_mono:
  assumes "0 \<le> a" "a \<le> b" "b \<le> 146096"
  shows "yoe_of a \<le> yoe_of b"
proof -
  define f :: "int \<Rightarrow> int" where "f x = x - x div 1460" for x
  define g :: "int \<Rightarrow> int" where "g x = x div 36524" for x
  define h :: "int \<Rightarrow> int" where "h x = x div 146096" for x
  have yoe: "yoe_of x = (f x + g x - h x) div 365" for x
    by (simp add: yoe_of_def f_def g_def h_def)
  have f: "f a \<le> f b" unfolding f_def using assms(2) by (rule days_mono)
  have g: "g a \<le> g b" unfolding g_def using assms(2) by (rule zdiv_mono1) simp
  have "f a + g a - h a \<le> f b + g b - h b"
  proof (cases "b = 146096")
    case True
    show ?thesis
    proof (cases "a = 146096")
      case True
      then show ?thesis using \<open>b = 146096\<close> by simp
    next
      case False
      then have a: "a \<le> 146095" using assms True by simp
      have "f a \<le> f 146095" unfolding f_def using a by (rule days_mono)
      moreover have "f 146095 = 145995" by (simp add: f_def)
      moreover have "g a \<le> g 146095" unfolding g_def using a by (rule zdiv_mono1) simp
      moreover have "g 146095 = 3" by (simp add: g_def)
      moreover have "0 \<le> h a" unfolding h_def using assms(1) by (simp add: pos_imp_zdiv_nonneg_iff)
      moreover have "f b = 145996" "g b = 4" "h b = 1" using True by (simp_all add: f_def g_def h_def)
      ultimately show ?thesis by linarith
    qed
  next
    case False
    then have b: "b < 146096" "a < 146096" using assms by simp_all
    have "h a = 0" "h b = 0" using assms(1,2) b by (simp_all add: h_def)
    then show ?thesis using f g by linarith
  qed
  then show ?thesis unfolding yoe by (rule zdiv_mono1) simp
qed
lemma div_add_multiple:
  fixes k x n :: int
  assumes "0 < n"
  shows "(n * k + x) div n = k + x div n"
  using assms by simp

lemma yoe_of_bounds:
  assumes "0 \<le> d" "d \<le> 146096"
  shows "0 \<le> yoe_of d \<and> yoe_of d \<le> 399
       \<and> year_start (yoe_of d) \<le> d \<and> d \<le> year_start (yoe_of d) + 365"
proof (cases "d = 146096")
  case True
  then show ?thesis by (simp add: yoe_of_def year_start_def)
next
  case False
  then have d: "d < 146096" using assms by simp
  define c where "c = d div 36524"
  define r where "r = d mod 36524"
  define q where "q = r div 1461"
  define s where "s = r mod 1461"
  define x where "x = 24 * c + q + s"
  define e where "e = x div 1460"
  define j where "j = (s - e) div 365"
  have dr: "d = 36524 * c + r" "0 \<le> r" "r < 36524" by (simp_all add: c_def r_def)
  have c: "0 \<le> c" "c \<le> 3" using assms(1) d dr by arith+
  have rs: "r = 1461 * q + s" "0 \<le> s" "s < 1461" by (simp_all add: q_def s_def)
  have q: "0 \<le> q" "q \<le> 24" using dr rs by arith+
  have x: "0 \<le> x" "x < 2920" using c q rs by (simp_all add: x_def)
  have e: "e = (if x < 1460 then 0 else 1)"
  proof (cases "x < 1460")
    case True
    then show ?thesis using x by (simp add: e_def)
  next
    case False
    then have "x = 1460 * 1 + (x - 1460)" "0 \<le> x - 1460" "x - 1460 < 1460" using x by simp_all
    then have "x div 1460 = 1 + (x - 1460) div 1460"
      by (metis div_add_multiple zero_less_numeral)
    then show ?thesis using False \<open>0 \<le> x - 1460\<close> \<open>x - 1460 < 1460\<close> by (simp add: e_def)
  qed
  have "d = 1460 * (25 * c + q) + x" using dr rs by (simp add: x_def)
  then have d1460: "d div 1460 = 25 * c + q + e"
    unfolding e_def by (metis div_add_multiple zero_less_numeral)
  have d36524: "d div 36524 = c" by (simp add: c_def)
  have d146096: "d div 146096 = 0" using assms(1) d by simp
  have se: "0 \<le> s - e" "s - e \<le> 1459" using e x rs c q by (auto simp: x_def split: if_splits)
  have "d - d div 1460 + d div 36524 - d div 146096 = 365 * (100 * c + 4 * q) + (s - e)"
    unfolding d1460 d36524 d146096 using dr rs by simp
  then have yoe: "yoe_of d = 100 * c + 4 * q + j"
    unfolding yoe_of_def j_def by (metis div_add_multiple zero_less_numeral)
  have j: "0 \<le> j" "j \<le> 3" "365 * j \<le> s - e" "s - e < 365 * j + 365"
    using se unfolding j_def by arith+
  have "(100 * c + 4 * q + j) div 4 = 25 * c + q" using j by arith
  moreover have "(100 * c + 4 * q + j) div 100 = c" using j q by arith
  ultimately have S: "year_start (yoe_of d) = 36524 * c + 1461 * q + 365 * j"
    unfolding yoe year_start_def by simp
  have "0 \<le> e" "e \<le> 1" using e by (simp_all split: if_splits)
  then show ?thesis
    unfolding S unfolding yoe using dr(1) rs c q j by arith
qed
lemma month_bounds:
  fixes doy :: int
  assumes "0 \<le> doy" "doy \<le> 365"
  shows "0 \<le> (5 * doy + 2) div 153" "(5 * doy + 2) div 153 \<le> 11"
  using assms by arith+

lemma day_bounds:
  fixes doy mp :: int
  assumes "mp = (5 * doy + 2) div 153"
  shows "1 \<le> doy - (153 * mp + 2) div 5 + 1" "doy - (153 * mp + 2) div 5 + 1 \<le> 31"
proof -
  have "153 * mp \<le> 5 * doy + 2" "5 * doy + 2 < 153 * mp + 153"
    unfolding assms by arith+
  then show "1 \<le> doy - (153 * mp + 2) div 5 + 1" "doy - (153 * mp + 2) div 5 + 1 \<le> 31"
    by arith+
qed

lemma civil_from_days_parts:
  fixes z :: int
  assumes doe_def: "doe = (z + 719468) mod 146097"
    and doy_def: "doy = doe - year_start (yoe_of doe)"
    and mp_def: "mp = (5 * doy + 2) div 153"
  shows "civil_from_days z =
     (yoe_of doe + (z + 719468) div 146097 * 400 + (if mp < 10 then 0 else 1),
      if mp < 10 then mp + 3 else mp - 9,
      doy - (153 * mp + 2) div 5 + 1)"
    and "0 \<le> yoe_of doe \<and> yoe_of doe \<le> 399 \<and> 0 \<le> doy \<and> doy \<le> 365 \<and> 0 \<le> mp \<and> mp \<le> 11"
proof -
  have doe: "0 \<le> doe" "doe \<le> 146096" by (simp_all add: doe_def)
  note b = yoe_of_bounds [OF doe]
  have doy: "0 \<le> doy" "doy \<le> 365" using b by (simp_all add: doy_def)
  have m: "0 \<le> mp" "mp \<le> 11" using month_bounds [OF doy] by (simp_all add: mp_def)
  show "0 \<le> yoe_of doe \<and> yoe_of doe \<le> 399 \<and> 0 \<le> doy \<and> doy \<le> 365 \<and> 0 \<le> mp \<and> mp \<le> 11"
    using b doy m by simp
  have "civil_from_days z =
     (yoe_of doe + (z + 719468) div 146097 * 400
        + (if (if mp < 10 then mp + 3 else mp - 9) \<le> 2 then 1 else 0),
      if mp < 10 then mp + 3 else mp - 9,
      doy - (153 * mp + 2) div 5 + 1)"
    unfolding civil_from_days_def Let_def mp_def doy_def doe_def yoe_of_def year_start_def
    by (rule refl)
  moreover have "(if (if mp < 10 then mp + 3 else mp - 9) \<le> 2 then 1 else 0)
      = (if mp < 10 then 0 else (1::int))"
    using m by (cases "mp < 10") simp_all
  ultimately show "civil_from_days z =
     (yoe_of doe + (z + 719468) div 146097 * 400 + (if mp < 10 then 0 else 1),
      if mp < 10 then mp + 3 else mp - 9,
      doy - (153 * mp + 2) div 5 + 1)"
    by (simp only:)
qed

lemma civil_from_days_range:
  assumes "civil_from_days z = (y, m, d)"
  shows "1 \<le> m \<and> m \<le> 12 \<and> 1 \<le> d \<and> d \<le> 31
       \<and> (z + 719468) div 146097 * 400 \<le> y \<and> y \<le> (z + 719468) div 146097 * 400 + 400"
proof -
  define doe where "doe = (z + 719468) mod 146097"
  define doy where "doy = doe - year_start (yoe_of doe)"
  define mp where "mp = (5 * doy + 2) div 153"
  note p = civil_from_days_parts [OF doe_def doy_def mp_def]
  note db = day_bounds [OF mp_def]
  have y: "y = yoe_of doe + (z + 719468) div 146097 * 400 + (if mp < 10 then 0 else 1)"
    and m: "m = (if mp < 10 then mp + 3 else mp - 9)"
    and d: "d = doy - (153 * mp + 2) div 5 + 1"
    using assms p(1) by simp_all
  show ?thesis
    using p(2) db unfolding y m d by (auto split: if_splits)
qed

lemma civil_from_days_mono:
  assumes "z1 < z2"
  shows "civil_from_days z1 < civil_from_days z2"
proof -
  define era1 where "era1 = (z1 + 719468) div 146097"
  define era2 where "era2 = (z2 + 719468) div 146097"
  define doe1 where "doe1 = (z1 + 719468) mod 146097"
  define doe2 where "doe2 = (z2 + 719468) mod 146097"
  define doy1 where "doy1 = doe1 - year_start (yoe_of doe1)"
  define doy2 where "doy2 = doe2 - year_start (yoe_of doe2)"
  define mp1 where "mp1 = (5 * doy1 + 2) div 153"
  define mp2 where "mp2 = (5 * doy2 + 2) div 153"
  define d1 where "d1 = doy1 - (153 * mp1 + 2) div 5 + 1"
  define d2 where "d2 = doy2 - (153 * mp2 + 2) div 5 + 1"
  note p1 = civil_from_days_parts [OF doe1_def doy1_def mp1_def, folded era1_def d1_def]
  note p2 = civil_from_days_parts [OF doe2_def doy2_def mp2_def, folded era2_def d2_def]
  have doe: "0 \<le> doe1" "doe1 \<le> 146096" "0 \<le> doe2" "doe2 \<le> 146096"
    by (simp_all add: doe1_def doe2_def)
  have z: "z1 + 719468 = 146097 * era1 + doe1" "z2 + 719468 = 146097 * era2 + doe2"
    by (simp_all add: era1_def era2_def doe1_def doe2_def)
  have era_le: "era1 \<le> era2" using assms unfolding era1_def era2_def by (intro zdiv_mono1) simp_all
  consider (era) "era1 < era2"
    | (year) "era1 = era2" "yoe_of doe1 < yoe_of doe2"
    | (month) "era1 = era2" "yoe_of doe1 = yoe_of doe2" "mp1 < mp2"
    | (day) "era1 = era2" "yoe_of doe1 = yoe_of doe2" "mp1 = mp2" "d1 < d2"
  proof (cases "era1 < era2")
    case True
    then show ?thesis by (rule era)
  next
    case False
    then have e: "era1 = era2" using era_le by simp
    then have lt: "doe1 < doe2" using z assms by simp
    then have "yoe_of doe1 \<le> yoe_of doe2" using doe by (intro yoe_of_mono) simp_all
    show ?thesis
    proof (cases "yoe_of doe1 = yoe_of doe2")
      case False
      then show ?thesis using e \<open>yoe_of doe1 \<le> yoe_of doe2\<close> by (intro year) simp_all
    next
      case True
      then have dd: "doy1 < doy2" using lt by (simp add: doy1_def doy2_def)
      then have "mp1 \<le> mp2" unfolding mp1_def mp2_def by (intro zdiv_mono1) simp_all
      show ?thesis
      proof (cases "mp1 = mp2")
        case False
        then show ?thesis using e True \<open>mp1 \<le> mp2\<close> by (intro month) simp_all
      next
        case m: True
        then have "d1 < d2" using dd by (simp add: d1_def d2_def)
        then show ?thesis using e True m by (intro day)
      qed
    qed
  qed
  then show ?thesis
  proof cases
    case era
    then have "yoe_of doe1 + era1 * 400 + 1 \<le> yoe_of doe2 + era2 * 400"
      using p1(2) p2(2) by simp
    then show ?thesis
      unfolding p1(1) p2(1) using p1(2) p2(2) by (auto simp: less_prod_def less_eq_prod_def)
  next
    case year
    then show ?thesis
      unfolding p1(1) p2(1) using p1(2) p2(2) by (auto simp: less_prod_def less_eq_prod_def)
  next
    case month
    then show ?thesis
      unfolding p1(1) p2(1) using p1(2) p2(2) by (auto simp: less_prod_def less_eq_prod_def)
  next
    case day
    then show ?thesis
      unfolding p1(1) p2(1) by (auto simp: less_prod_def less_eq_prod_def)
  qed
qed
lemma digit_char_code: "of_char (digit_char n) = (48 + n mod 10 :: nat)"
proof -
  have "n mod 10 \<in> set [0..<10]" by simp
  also have "[0..<10] = [0, 1, 2, 3, 4, 5, 6, 7, 8, 9::nat]" by (simp add: upt_rec)
  finally have "n mod 10 \<in> {0, 1, 2, 3, 4, 5, 6, 7, 8, 9}" by simp
  then show ?thesis unfolding digit_char_def by (elim insertE emptyE) simp_all
qed

lemma digit_char_less: "digit_char a < digit_char b \<longleftrightarrow> a mod 10 < b mod 10"
  by (simp only: less_char_def digit_char_code) simp

lemma digit_char_eq: "digit_char a = digit_char b \<longleftrightarrow> a mod 10 = b mod 10"
proof
  assume "digit_char a = digit_char b"
  then have "(of_char (digit_char a) :: nat) = of_char (digit_char b)" by simp
  then show "a mod 10 = b mod 10" by (simp add: digit_char_code)
next
  assume "a mod 10 = b mod 10"
  then show "digit_char a = digit_char b" by (simp add: digit_char_def)
qed

lemma digits_small: "n < 10 \<Longrightarrow> digits n = [digit_char n]"
  by (subst digits.simps) simp

lemma digits_large: "10 \<le> n \<Longrightarrow> digits n = digits (n div 10) @ [digit_char n]"
  by (subst digits.simps) simp

lemma digit_char_zero: "digit_char 0 = CHR ''0''"
  by (simp add: digit_char_def)

lemma replicate_zeros:
  "replicate 3 c = [c, c, c]" "replicate 2 c = [c, c]"
  by (simp_all add: numeral_3_eq_3 numeral_2_eq_2)

lemma pad2:
  assumes "0 \<le> a" "a < 100"
  shows "pad 2 a = [digit_char (nat a div 10), digit_char (nat a)]"
proof (cases "a < 10")
  case True
  then have "nat a div 10 = 0" using assms by simp
  then show ?thesis
    using True assms by (simp add: pad_def str_int_def digits_small digit_char_zero)
next
  case False
  then have "10 \<le> nat a" "nat a div 10 < 10" using assms by simp_all
  then show ?thesis
    using assms by (simp add: pad_def str_int_def digits_small digits_large)
qed

lemma pad4:
  assumes "0 \<le> a" "a < 10000"
  shows "pad 4 a = [digit_char (nat a div 1000), digit_char (nat a div 100),
                    digit_char (nat a div 10), digit_char (nat a)]"
proof -
  define n where "n = nat a"
  have n: "n < 10000" "str_int a = digits n" using assms by (simp_all add: n_def str_int_def)
  have d3: "n div 10 div 10 = n div 100" "n div 100 div 10 = n div 1000"
    by (simp_all add: div_mult2_eq [symmetric])
  consider "n < 10" | "10 \<le> n" "n < 100" | "100 \<le> n" "n < 1000" | "1000 \<le> n"
    by linarith
  then have "pad 4 a = [digit_char (n div 1000), digit_char (n div 100),
                    digit_char (n div 10), digit_char n]"
  proof cases
    case 1
    then have "n div 10 = 0" "n div 100 = 0" "n div 1000 = 0" by simp_all
    then show ?thesis
      using 1 by (simp add: pad_def n digits_small digit_char_zero replicate_zeros)
  next
    case 2
    then have "n div 10 < 10" "n div 100 = 0" "n div 1000 = 0" by simp_all
    then show ?thesis
      using 2 by (simp add: pad_def n digits_small digits_large digit_char_zero replicate_zeros)
  next
    case 3
    then have "10 \<le> n" "10 \<le> n div 10" "n div 100 < 10" "n div 1000 = 0" by simp_all
    then show ?thesis
      by (simp add: pad_def n digits_small digits_large digit_char_zero d3)
  next
    case 4
    then have "10 \<le> n" "10 \<le> n div 10" "10 \<le> n div 100" "n div 1000 < 10" using n(1) by simp_all
    then show ?thesis
      by (simp add: pad_def n digits_small digits_large digit_char_zero d3)
  qed
  then show ?thesis by (simp add: n_def)
qed

lemma lex_step:
  fixes m n :: nat
  assumes "m < n"
  shows "m div 10 < n div 10 \<or> m div 10 = n div 10 \<and> m mod 10 < n mod 10"
proof (cases "m div 10 < n div 10")
  case False
  have "m div 10 \<le> n div 10" using assms by (simp add: div_le_mono)
  then have e: "m div 10 = n div 10" using False by simp
  have "m = 10 * (m div 10) + m mod 10" "n = 10 * (n div 10) + n mod 10" by simp_all
  then have "m mod 10 < n mod 10" using assms e by linarith
  then show ?thesis using e by simp
qed simp

lemma pad2_less:
  assumes "0 \<le> a" "a < b" "b < 100"
  shows "pad 2 a < pad 2 b"
proof -
  define m where "m = nat a"
  define n where "n = nat b"
  have mn: "m < n" "n < 100" using assms by (simp_all add: m_def n_def)
  then have "m < 100" by linarith
  then have small: "m div 10 mod 10 = m div 10" "n div 10 mod 10 = n div 10"
    using mn by simp_all
  have p: "pad 2 a = [digit_char (m div 10), digit_char m]"
    "pad 2 b = [digit_char (n div 10), digit_char n]"
    using assms by (simp_all add: pad2 m_def n_def)
  show ?thesis
    unfolding p using lex_step [OF mn(1)]
    by (simp add: digit_char_less digit_char_eq small)
qed

lemma pad4_less:
  assumes "0 \<le> a" "a < b" "b < 10000"
  shows "pad 4 a < pad 4 b"
proof -
  define m where "m = nat a"
  define n where "n = nat b"
  define m1 where "m1 = m div 10"
  define m2 where "m2 = m div 100"
  define m3 where "m3 = m div 1000"
  define n1 where "n1 = n div 10"
  define n2 where "n2 = n div 100"
  define n3 where "n3 = n div 1000"
  have mn: "m < n" "n < 10000" using assms by (simp_all add: m_def n_def)
  have nest: "m2 = m1 div 10" "m3 = m2 div 10" "n2 = n1 div 10" "n3 = n2 div 10"
    by (simp_all add: m1_def m2_def m3_def n1_def n2_def n3_def div_mult2_eq [symmetric])
  have small: "m3 mod 10 = m3" "n3 mod 10 = n3"
    using mn by (simp_all add: m3_def n3_def)
  have p: "pad 4 a = [digit_char m3, digit_char m2, digit_char m1, digit_char m]"
    "pad 4 b = [digit_char n3, digit_char n2, digit_char n1, digit_char n]"
    using assms by (simp_all add: pad4 m_def n_def m1_def m2_def m3_def n1_def n2_def n3_def)
  have s0: "m1 < n1 \<or> m1 = n1 \<and> m mod 10 < n mod 10"
    unfolding m1_def n1_def using mn(1) by (rule lex_step)
  have s1: "m1 < n1 \<Longrightarrow> m2 < n2 \<or> m2 = n2 \<and> m1 mod 10 < n1 mod 10"
    unfolding nest by (rule lex_step)
  have s2: "m2 < n2 \<Longrightarrow> m3 < n3 \<or> m3 = n3 \<and> m2 mod 10 < n2 mod 10"
    unfolding nest by (rule lex_step)
  have e1: "m1 = n1 \<Longrightarrow> m2 = n2" and e2: "m2 = n2 \<Longrightarrow> m3 = n3"
    by (simp_all add: nest)
  show ?thesis
    unfolding p using s0 s1 s2 e1 e2
    by (simp add: digit_char_less digit_char_eq small) blast
qed

lemma length_pad: "0 \<le> a \<Longrightarrow> a < 100 \<Longrightarrow> length (pad 2 a) = 2"
  "0 \<le> b \<Longrightarrow> b < 10000 \<Longrightarrow> length (pad 4 b) = 4"
  by (simp_all add: pad2 pad4)

lemma append_less_left:
  fixes xs ys :: "'a::linorder list"
  shows "length xs = length ys \<Longrightarrow> xs < ys \<Longrightarrow> xs @ us < ys @ vs"
  by (induction xs ys rule: list_induct2) auto

lemma append_less_right:
  fixes xs :: "'a::linorder list"
  shows "us < vs \<Longrightarrow> xs @ us < xs @ vs"
  by (induction xs) auto
lemma year_range:
  assumes "date_range a" "civil_from_days a = (y, m, d)"
  shows "0 \<le> y" "y < 10000" "0 \<le> m" "m < 100" "0 \<le> d" "d < 100"
proof -
  define era where "era = (a + 719468) div 146097"
  have "0 \<le> a + 719468" "a + 719468 \<le> 3506327" using assms(1) by (simp_all add: date_range_def)
  then have "0 div 146097 \<le> era" "era \<le> 3506327 div 146097"
    unfolding era_def by (intro zdiv_mono1; simp)+
  then have era: "0 \<le> era" "era \<le> 23" by simp_all
  note r = civil_from_days_range [OF assms(2), folded era_def]
  show "0 \<le> y" "y < 10000" "0 \<le> m" "m < 100" "0 \<le> d" "d < 100"
    using r era by simp_all
qed

lemma fmt_date_less:
  assumes "date_range a" "date_range b" "a < b"
  shows "fmt_date a < fmt_date b" and "length (fmt_date a) = length (fmt_date b)"
proof -
  obtain y1 m1 d1 where c1: "civil_from_days a = (y1, m1, d1)"
    by (cases "civil_from_days a") auto
  obtain y2 m2 d2 where c2: "civil_from_days b = (y2, m2, d2)"
    by (cases "civil_from_days b") auto
  note r1 = year_range [OF assms(1) c1]
  note r2 = year_range [OF assms(2) c2]
  have f1: "fmt_date a = pad 4 y1 @ (CHR ''-'' # pad 2 m1 @ (CHR ''-'' # pad 2 d1))"
    and f2: "fmt_date b = pad 4 y2 @ (CHR ''-'' # pad 2 m2 @ (CHR ''-'' # pad 2 d2))"
    by (simp_all add: fmt_date_def c1 c2)
  have l4: "length (pad 4 y1) = length (pad 4 y2)"
    using r1 r2 by (simp add: length_pad)
  have l2: "length (pad 2 m1) = length (pad 2 m2)"
    using r1 r2 by (simp add: length_pad)
  show "length (fmt_date a) = length (fmt_date b)"
    unfolding f1 f2 using r1 r2 by (simp add: length_pad)
  have "(y1, m1, d1) < (y2, m2, d2)"
    using civil_from_days_mono [OF assms(3)] by (simp add: c1 c2)
  then have "y1 < y2 \<or> y1 = y2 \<and> (m1 < m2 \<or> m1 = m2 \<and> d1 < d2)"
    by (auto simp: less_prod_def less_eq_prod_def)
  then consider (year) "y1 < y2" | (month) "y1 = y2" "m1 < m2" | (day) "y1 = y2" "m1 = m2" "d1 < d2"
    by blast
  then show "fmt_date a < fmt_date b"
  proof cases
    case year
    then have "pad 4 y1 < pad 4 y2" using r1 r2 by (intro pad4_less)
    then show ?thesis unfolding f1 f2 using l4 by (intro append_less_left)
  next
    case month
    then have "pad 2 m1 < pad 2 m2" using r1 r2 by (intro pad2_less)
    then have "pad 2 m1 @ (CHR ''-'' # pad 2 d1) < pad 2 m2 @ (CHR ''-'' # pad 2 d2)"
      using l2 by (intro append_less_left)
    then show ?thesis unfolding f1 f2 month(1) by (intro append_less_right) simp
  next
    case day
    then have "pad 2 d1 < pad 2 d2" using r1 r2 by (intro pad2_less)
    then have "pad 2 m2 @ (CHR ''-'' # pad 2 d1) < pad 2 m2 @ (CHR ''-'' # pad 2 d2)"
      by (intro append_less_right) simp
    then show ?thesis unfolding f1 f2 day(1,2) by (intro append_less_right) simp
  qed
qed

lemma week_start_bounds: "day - 6 \<le> week_start day" "week_start day \<le> day"
proof -
  define r where "r = (day + 3) mod 7"
  have "0 \<le> r" "r < 7" by (simp_all add: r_def)
  then show "day - 6 \<le> week_start day" "week_start day \<le> day"
    unfolding week_start_def r_def [symmetric] by simp_all
qed

lemma timestamp_day_range:
  assumes "timestamp_range t"
  shows "- 106752 \<le> t div ns_per_day" "t div ns_per_day \<le> 106751"
proof -
  have "- (2 ^ 63) \<le> t" "t \<le> 2 ^ 63" using assms by (simp_all add: timestamp_range_def)
  then have "(- (2 ^ 63)) div 86400000000000 \<le> t div 86400000000000"
    "t div 86400000000000 \<le> 2 ^ 63 div 86400000000000"
    by (intro zdiv_mono1; simp)+
  then show "- 106752 \<le> t div ns_per_day" "t div ns_per_day \<le> 106751"
    by (simp_all add: ns_per_day_def ns_per_second_def)
qed

lemma timestamp_week_range:
  assumes "timestamp_range t"
  shows "date_range (week_start (t div ns_per_day))"
    and "date_range (week_start (t div ns_per_day) + 6)"
  using timestamp_day_range [OF assms] week_start_bounds [of "t div ns_per_day"]
  by (simp_all add: date_range_def)

lemma week_str_less:
  assumes "timestamp_range t1" "timestamp_range t2"
    and "week_start (t1 div ns_per_day) < week_start (t2 div ns_per_day)"
  shows "week_str (TS t1) < week_str (TS t2)"
proof -
  note r1 = timestamp_week_range [OF assms(1)]
  note r2 = timestamp_week_range [OF assms(2)]
  note f = fmt_date_less [OF r1(1) r2(1) assms(3)]
  show ?thesis
    using f by (simp add: Let_def append_less_left)
qed

section \<open>Bulk import\<close>

text \<open>
  C2. Whatever the store holds, an uploaded file that pandas reads into a table lacking
  one of the ten required columns is answered with the missing-columns error (the spec's
  SchemaError), which lists that column, and the session, so the Report Store, is
  returned as it was.
\<close>

theorem import_missing_column_rejected:
  assumes "read_csv uploaded_file = Inr df"
    and "c \<in> set required_columns"
    and "c \<notin> set (columns df)"
  shows "upload_handler parse uploaded_file s =
           (s, MissingColumns (filter (\<lambda>c. c \<notin> set (columns df)) required_columns))
         \<and> c \<in> set (filter (\<lambda>c. c \<notin> set (columns df)) required_columns)
         \<and> reports (fst (upload_handler parse uploaded_file s)) = reports s"
proof -
  have "filter (\<lambda>c. c \<notin> set (columns df)) required_columns \<noteq> []"
    using assms(2,3) by (auto simp: filter_empty_conv)
  then show ?thesis
    using assms by (simp add: upload_handler_def Let_def)
qed

theorem import_missing_column_rejected_witness:
  "upload_handler parse_iso upload_without_photo_path empty_session =
     (empty_session, MissingColumns [''photo_path''])
   \<and> reports (fst (upload_handler parse_iso upload_without_photo_path empty_session)) = []"
  using import_missing_column_rejected [OF read_without_photo_path, of "''photo_path''"
      parse_iso empty_session]
  by (simp add: required_columns_def empty_session_def)

text \<open>
  C4. An uploaded file that pandas reads into a table with all ten required columns is
  merged: every row of the table is appended to the store, in the table's order, with
  only its timestamp replaced by the converted value. A row whose timestamp does not
  convert is appended with the timestamp \<^verbatim>\<open>NaT\<close>; every other field is as read.
\<close>

theorem import_appends_every_row:
  assumes "read_csv uploaded_file = Inr df"
    and "set required_columns \<subseteq> set (columns df)"
  shows "snd (upload_handler parse uploaded_file s) = UploadMerged
    \<and> reports (fst (upload_handler parse uploaded_file s)) =
        reports s @ map (\<lambda>r. AList.update ''timestamp''
                    (coerce_datetime parse (cell_of r ''timestamp'')) r) (rows df)
    \<and> length (reports (fst (upload_handler parse uploaded_file s))) =
        length (reports s) + length (rows df)
    \<and> (\<forall>i < length (rows df).
          let r = rows df ! i;
              r' = reports (fst (upload_handler parse uploaded_file s)) ! (length (reports s) + i)
          in (convert_datetime parse (cell_of r ''timestamp'') = None
                \<longrightarrow> cell_of r' ''timestamp'' = NaT)
             \<and> (\<forall>c. c \<noteq> ''timestamp'' \<longrightarrow> cell_of r' c = cell_of r c))"
  unfolding upload_merged [OF assms]
  by (simp add: nth_append cell_of_update coerce_datetime_def Let_def)

theorem import_appends_every_row_witness:
  "snd (upload_handler parse_iso upload_two_rows empty_session) = UploadMerged
   \<and> reports (fst (upload_handler parse_iso upload_two_rows empty_session)) =
       [[(''timestamp'', TS 1704103200000000000), (''address'', Str ''1 Main St''),
         (''zipcode'', IntV 10001), (''description'', Str ''murky''),
         (''concerns'', Str ''Foam''), (''type'', Str ''Faucet''),
         (''used'', Str ''Yes''), (''symptoms'', Str ''none''),
         (''alert'', BoolV True), (''photo_path'', Str ''a.png'')],
        [(''timestamp'', NaT), (''address'', Str ''2 Side St''),
         (''zipcode'', IntV 10002), (''description'', Str ''clear''),
         (''concerns'', Str ''Bugs''), (''type'', Str ''Other''),
         (''used'', Str ''No''), (''symptoms'', Str ''none''),
         (''alert'', BoolV False), (''photo_path'', Str ''b.png'')]]"
  using import_appends_every_row [OF read_two_rows, of parse_iso empty_session]
  by (simp add: empty_session_def coerce_datetime_def cell_of_def nat_strings_def
      parse_iso_example parse_iso_not_a_date)


section \<open>Gallery\<close>

lemma is_datetime_coerce: "is_datetime (coerce_datetime parse v)"
  by (cases v) (auto simp: coerce_datetime_def is_datetime_def split: option.splits)

lemma is_datetime_cases: "is_datetime v \<Longrightarrow> (isna v \<and> v = NaT) \<or> (\<not> isna v \<and> v = TS (ts_value v))"
  by (auto simp: is_datetime_def)

lemma map_of_tabulate: "map_of (map (\<lambda>c. (c, f c)) cs) c = (if c \<in> set cs then Some (f c) else None)"
  by (induction cs) auto

lemma set_columns_DataFrame:
  "set (columns (DataFrame records)) = (\<Union>r \<in> set records. fst ` set r)"
  by (auto simp: DataFrame_def Let_def)

lemma cell_of_DataFrame_row:
  assumes "r \<in> set records"
  shows "cell_of (map (\<lambda>c. (c, cell_of r c)) (columns (DataFrame records))) c = cell_of r c"
proof (cases "c \<in> set (columns (DataFrame records))")
  case True
  then show ?thesis by (simp add: cell_of_def map_of_tabulate)
next
  case False
  then have "c \<notin> fst ` set r" using assms by (auto simp: set_columns_DataFrame)
  then have "map_of r c = None" by (simp add: map_of_eq_None_iff)
  with False show ?thesis by (simp add: cell_of_def map_of_tabulate)
qed

lemma rows_DataFrame:
  "rows (DataFrame records) = map (\<lambda>r. map (\<lambda>c. (c, cell_of r c)) (columns (DataFrame records))) records"
  by (simp add: DataFrame_def Let_def)

lemma nargsort_in_range:
  assumes "argsort_ok argsort"
  shows "set (nargsort argsort ascending items) \<subseteq> {..<length items}"
proof -
  define nn where "nn = filter (\<lambda>i. \<not> isna (items ! i)) [0..<length items]"
  have nn: "set nn \<subseteq> {..<length items}" by (auto simp: nn_def)
  have a: "set (argsort ks) = {..<length ks}" for ks
    using assms by (simp add: argsort_ok_def)
  have "set (map (\<lambda>j. nn ! j) (argsort (map (\<lambda>i. ts_value (items ! i)) nn))) \<subseteq> set nn"
    by (auto simp: a)
  moreover have "set (map (\<lambda>j. rev nn ! j) (argsort (rev (map (\<lambda>i. ts_value (items ! i)) nn)))) \<subseteq> set nn"
    by (auto simp: a rev_nth)
  ultimately show ?thesis
    using nn by (auto simp: nargsort_def Let_def nn_def [symmetric])
qed

lemma nargsort_ascending:
  assumes "argsort_ok argsort" and "\<forall>v \<in> set items. is_datetime v"
  shows "\<exists>ks n. map ((!) items) (nargsort argsort True items) = map TS ks @ replicate n NaT
           \<and> sorted ks"
proof -
  define nn where "nn = filter (\<lambda>i. \<not> isna (items ! i)) [0..<length items]"
  define na where "na = filter (\<lambda>i. isna (items ! i)) [0..<length items]"
  define keys where "keys = map (\<lambda>i. ts_value (items ! i)) nn"
  have a: "set (argsort keys) = {..<length keys}" and s: "sorted (map ((!) keys) (argsort keys))"
    using assms(1) by (simp_all add: argsort_ok_def)
  have dt: "is_datetime (items ! i)" if "i < length items" for i
    using assms(2) that by simp
  have "items ! (nn ! j) = TS (keys ! j)" if "j < length nn" for j
  proof -
    have "nn ! j \<in> set nn" using that by simp
    then have "nn ! j < length items" "\<not> isna (items ! (nn ! j))" by (auto simp: nn_def)
    then show ?thesis using is_datetime_cases [OF dt] that by (auto simp: keys_def)
  qed
  then have 1: "map ((!) items) (map (\<lambda>j. nn ! j) (argsort keys)) = map TS (map ((!) keys) (argsort keys))"
    using a by (auto simp: keys_def)
  have "items ! i = NaT" if "i \<in> set na" for i
    using that is_datetime_cases [OF dt] by (auto simp: na_def)
  then have 2: "map ((!) items) na = replicate (length na) NaT"
    by (auto simp: map_replicate_const [symmetric] intro!: map_cong)
  have "map ((!) items) (nargsort argsort True items)
        = map TS (map ((!) keys) (argsort keys)) @ replicate (length na) NaT"
    using 1 2 by (simp add: nargsort_def Let_def nn_def [symmetric] na_def [symmetric] keys_def [symmetric])
  with s show ?thesis by blast
qed


lemma rows_set_column_own:
  "rows (set_column c (map f (rows df)) df) = map (\<lambda>r. AList.update c (f r) r) (rows df)"
  by (simp add: set_column_def map_zip_same zip_map1 case_prod_unfold zip_same_conv_map)

lemma columns_set_column:
  "set (columns (set_column c vs df)) = insert c (set (columns df))"
  by (auto simp: set_column_def)

lemma gallery_tab_shown:
  assumes "gallery_tab parse argsort records z opt = Inr shown"
  shows "shown = [] \<or>
    (\<exists>rows3. rows3 = filter (\<lambda>r. z = ''All'' \<or> cell_of r ''zipcode'' = Str z)
                (map (\<lambda>r. AList.update ''timestamp'' (coerce_datetime parse (cell_of r ''timestamp''))
                            (AList.update ''zipcode'' (Str (astype_str (cell_of r ''zipcode''))) r))
                   (rows (DataFrame records)))
       \<and> shown = map ((!) rows3) (nargsort argsort (opt = ''Oldest First'')
                    (map (\<lambda>r. cell_of r ''timestamp'') rows3)))"
proof -
  let ?df = "DataFrame records"
  let ?df1 = "set_column ''zipcode'' (map (\<lambda>r. Str (astype_str (cell_of r ''zipcode''))) (rows ?df)) ?df"
  let ?df2 = "set_column ''timestamp''
                (map (\<lambda>r. coerce_datetime parse (cell_of r ''timestamp'')) (rows ?df1)) ?df1"
  let ?P = "\<lambda>r. z = ''All'' \<or> cell_of r ''zipcode'' = Str z"
  have r1: "rows ?df1 = map (\<lambda>r. AList.update ''zipcode'' (Str (astype_str (cell_of r ''zipcode''))) r) (rows ?df)"
    by (rule rows_set_column_own)
  have r2: "rows ?df2 = map (\<lambda>r. AList.update ''timestamp'' (coerce_datetime parse (cell_of r ''timestamp'')) r) (rows ?df1)"
    by (rule rows_set_column_own)
  have r2': "rows ?df2 = map (\<lambda>r. AList.update ''timestamp'' (coerce_datetime parse (cell_of r ''timestamp''))
                            (AList.update ''zipcode'' (Str (astype_str (cell_of r ''zipcode''))) r)) (rows ?df)"
    unfolding r2 unfolding r1 by (simp add: comp_def cell_of_update)
  have "shown = [] \<or> shown = map ((!) (filter ?P (rows ?df2)))
          (nargsort argsort (opt = ''Oldest First'') (map (\<lambda>r. cell_of r ''timestamp'') (filter ?P (rows ?df2))))"
    using assms
    by (auto simp: gallery_tab_def Let_def col_def sort_values_def
        columns_set_column to_datetime_coerce_def to_dict_records_def comp_def
        split: if_splits sum.splits)
  then show ?thesis
    unfolding r2' by blast
qed

lemma argsort_ok_insertion: "argsort_ok insertion_argsort"
  by (simp add: argsort_ok_def insertion_argsort_def lessThan_atLeast0)

lemma DataFrame_example_store:
  "DataFrame example_store = \<lparr>columns = required_columns, rows = example_store\<rparr>"
  by (simp add: DataFrame_def example_store_def example_report_def cell_of_def required_columns_def)

lemma parse_iso_examples:
  "parse_iso ''2024-01-10 10:00'' = Some 1704880800000000000"
  "parse_iso ''2024-01-02 09:00'' = Some 1704186000000000000"
  "parse_iso ''2024-01-03 08:00'' = Some 1704268800000000000"
  by (simp_all add: parse_iso_def digit_val_def days_in_month_def days_from_civil_def
      ns_per_second_def)

lemma gallery_example:
  "gallery_tab parse_iso insertion_argsort example_store ''10001'' ''Oldest First'' =
     Inr [example_report (TS 1704268800000000000) (Str ''10001''),
          example_report (TS 1704880800000000000) (Str ''10001''),
          example_report NaT (Str ''10001'')]"
  apply (simp add: gallery_tab_def DataFrame_example_store df_empty_def col_def 
      required_columns_def  Let_def)
  apply (simp add: set_column_def example_store_def example_report_def cell_of_def str_int_def digits.simps digit_char_def)
  apply (simp add: to_datetime_coerce_def coerce_datetime_def nat_strings_def parse_iso_examples)
  apply (simp add: sort_values_def col_def cell_of_def)
  apply (simp add: nargsort_def Let_def)
  apply (simp add: insertion_argsort_def to_dict_records_def)
  done

text \<open>
  C5. Whatever sorting algorithm numpy uses, as long as it meets its contract: with a zip
  code \<open>z\<close> other than "All" selected, every report the gallery shows has the zip code
  \<open>z\<close>, and is a stored report whose zip code reads \<open>z\<close>, unchanged in every field but
  the two the gallery converts; and with "Oldest First" the timestamps of the reports
  shown are the Timestamps in non-decreasing order, followed by the reports that have
  none (\<^verbatim>\<open>NaT\<close>).
\<close>

theorem gallery_filter_and_order:
  assumes "argsort_ok argsort"
    and "gallery_tab parse argsort records z opt = Inr shown"
  shows "(z \<noteq> ''All'' \<longrightarrow>
           (\<forall>r \<in> set shown. cell_of r ''zipcode'' = Str z
              \<and> (\<exists>r0 \<in> set records. astype_str (cell_of r0 ''zipcode'') = z
                     \<and> (\<forall>c. c \<noteq> ''zipcode'' \<and> c \<noteq> ''timestamp'' \<longrightarrow> cell_of r c = cell_of r0 c))))
       \<and> (opt = ''Oldest First'' \<longrightarrow>
           (\<exists>ks n. map (\<lambda>r. cell_of r ''timestamp'') shown = map TS ks @ replicate n NaT
                   \<and> sorted ks))"
proof (cases "shown = []")
  case True
  then show ?thesis by simp
next
  case False
  let ?u = "\<lambda>r. AList.update ''timestamp'' (coerce_datetime parse (cell_of r ''timestamp''))
                 (AList.update ''zipcode'' (Str (astype_str (cell_of r ''zipcode''))) r)"
  define rows3 where "rows3 = filter (\<lambda>r. z = ''All'' \<or> cell_of r ''zipcode'' = Str z)
                (map ?u (rows (DataFrame records)))"
  define items where "items = map (\<lambda>r. cell_of r ''timestamp'') rows3"
  define idx where "idx = nargsort argsort (opt = ''Oldest First'') items"
  have shown: "shown = map ((!) rows3) idx"
    using gallery_tab_shown [OF assms(2)] False by (simp add: rows3_def items_def idx_def)
  have idx: "set idx \<subseteq> {..<length rows3}"
    using nargsort_in_range [OF assms(1), of "opt = ''Oldest First''" items]
    by (simp add: idx_def items_def)
  then have sub: "set shown \<subseteq> set rows3"
    by (auto simp: shown)
  have filt: "cell_of r ''zipcode'' = Str z
      \<and> (\<exists>r0 \<in> set records. astype_str (cell_of r0 ''zipcode'') = z
             \<and> (\<forall>c. c \<noteq> ''zipcode'' \<and> c \<noteq> ''timestamp'' \<longrightarrow> cell_of r c = cell_of r0 c))"
    if "z \<noteq> ''All''" and "r \<in> set shown" for r
  proof -
    from that sub have z: "cell_of r ''zipcode'' = Str z"
      and "r \<in> ?u ` set (rows (DataFrame records))"
      by (auto simp: rows3_def)
    then obtain r0 where r0: "r0 \<in> set records"
      and r: "r = ?u (map (\<lambda>c. (c, cell_of r0 c)) (columns (DataFrame records)))"
      by (auto simp: rows_DataFrame)
    have "cell_of r c = cell_of r0 c" if "c \<noteq> ''zipcode''" "c \<noteq> ''timestamp''" for c
      using that by (simp add: r cell_of_update cell_of_DataFrame_row [OF r0])
    moreover have "astype_str (cell_of r0 ''zipcode'') = z"
      using z by (simp add: r cell_of_update cell_of_DataFrame_row [OF r0])
    ultimately show ?thesis using z r0 by blast
  qed
  have dt: "\<forall>v \<in> set items. is_datetime v"
    by (auto simp: items_def rows3_def cell_of_update is_datetime_coerce)
  have "map (\<lambda>r. cell_of r ''timestamp'') shown = map ((!) items) idx"
    using idx by (auto simp: shown items_def)
  then have "\<exists>ks n. map (\<lambda>r. cell_of r ''timestamp'') shown = map TS ks @ replicate n NaT \<and> sorted ks"
    if "opt = ''Oldest First''"
    using nargsort_ascending [OF assms(1) dt] that by (simp add: idx_def)
  with filt show ?thesis by blast
qed

theorem gallery_filter_and_order_witness:
  "argsort_ok insertion_argsort
   \<and> gallery_tab parse_iso insertion_argsort example_store ''10001'' ''Oldest First'' =
       Inr [example_report (TS 1704268800000000000) (Str ''10001''),
            example_report (TS 1704880800000000000) (Str ''10001''),
            example_report NaT (Str ''10001'')]
   \<and> list_all (\<lambda>r. cell_of r ''zipcode'' = Str ''10001'')
         [example_report (TS 1704268800000000000) (Str ''10001''),
          example_report (TS 1704880800000000000) (Str ''10001''),
          example_report NaT (Str ''10001'')]
   \<and> (\<exists>ks n. map (\<lambda>r. cell_of r ''timestamp'')
                  [example_report (TS 1704268800000000000) (Str ''10001''),
                   example_report (TS 1704880800000000000) (Str ''10001''),
                   example_report NaT (Str ''10001'')] = map TS ks @ replicate n NaT
              \<and> sorted ks)"
proof -
  note th = gallery_filter_and_order [OF argsort_ok_insertion gallery_example]
  from th have a: "list_all (\<lambda>r. cell_of r ''zipcode'' = Str ''10001'')
         [example_report (TS 1704268800000000000) (Str ''10001''),
          example_report (TS 1704880800000000000) (Str ''10001''),
          example_report NaT (Str ''10001'')]"
    by simp
  from th have b: "\<exists>ks n. map (\<lambda>r. cell_of r ''timestamp'')
                  [example_report (TS 1704268800000000000) (Str ''10001''),
                   example_report (TS 1704880800000000000) (Str ''10001''),
                   example_report NaT (Str ''10001'')] = map TS ks @ replicate n NaT
              \<and> sorted ks"
    by simp
  show ?thesis
    using a b argsort_ok_insertion gallery_example by simp
qed

section \<open>Trends\<close>

lemma to_datetime_all:
  "(\<forall>v \<in> set vs. convert_datetime parse v \<noteq> None)
     \<Longrightarrow> to_datetime parse vs = Inr (map (coerce_datetime parse) vs)"
  by (induction vs) (auto simp: coerce_datetime_def)

lemma count_list_filter: "P k \<Longrightarrow> count_list (filter P ks) k = count_list ks k"
  by (induction ks) auto

lemma groupby_size_buckets:
  "groupby_size data =
     map (\<lambda>k. bucket k (count_list (group_keys data) k))
       (sort_key (\<lambda>(z, w). (cell_rank z, cell_rank w)) (remdups (group_keys data)))"
  by (simp add: groupby_size_def bucket_def case_prod_unfold Let_def)

lemma report_ok_columns:
  assumes "records \<noteq> []" and "\<forall>r \<in> set records. report_ok r"
  shows "set required_columns \<subseteq> set (columns (DataFrame records))"
proof -
  obtain r where "r \<in> set records" using assms(1) by (cases records) auto
  then show ?thesis using assms(2) by (fastforce simp: set_columns_DataFrame report_ok_def)
qed

lemma trend_data_buckets:
  assumes "\<forall>r \<in> set records. report_ok r \<and> convert_datetime parse (cell_of r ''timestamp'') \<noteq> None"
  shows "trend_data parse records =
     Inr (map (\<lambda>k. bucket k (count_list (map (pair_of parse) records) k))
            (sort_key (\<lambda>(z, w). (cell_rank z, cell_rank w))
               (remdups (filter (\<lambda>k. \<not> isna (fst k)) (map (pair_of parse) records)))))"
proof (cases "records = []")
  case True
  then show ?thesis by (simp add: trend_data_def DataFrame_def df_empty_def)
next
  case False
  let ?df = "DataFrame records"
  let ?ts = "map (\<lambda>r. coerce_datetime parse (cell_of r ''timestamp'')) (rows ?df)"
  let ?df1 = "set_column ''timestamp'' ?ts ?df"
  let ?df2 = "set_column ''week'' (map (\<lambda>r. Str (week_str (coerce_datetime parse (cell_of r ''timestamp'')))) (rows ?df)) ?df1"
  have cols: "set required_columns \<subseteq> set (columns ?df)"
    using report_ok_columns [OF False] assms by blast
  then have c: "''timestamp'' \<in> set (columns ?df)" "''zipcode'' \<in> set (columns ?df)"
    by (auto simp: required_columns_def)
  have ne: "\<not> df_empty ?df"
    using False c by (auto simp: df_empty_def rows_DataFrame)
  have cell: "cell_of r' c = cell_of r c"
    if "r \<in> set records" "r' = map (\<lambda>c. (c, cell_of r c)) (columns ?df)" for r r' c
    using that cell_of_DataFrame_row by simp
  have conv: "\<forall>v \<in> set (map (\<lambda>r. cell_of r ''timestamp'') (rows ?df)). convert_datetime parse v \<noteq> None"
    using assms by (auto simp: rows_DataFrame cell_of_DataFrame_row)
  have td: "to_datetime parse (map (\<lambda>r. cell_of r ''timestamp'') (rows ?df)) = Inr ?ts"
    using to_datetime_all [OF conv] by (simp add: comp_def)
  have r1: "rows ?df1 = map (\<lambda>r. AList.update ''timestamp'' (coerce_datetime parse (cell_of r ''timestamp'')) r) (rows ?df)"
    by (rule rows_set_column_own)
  have r2: "rows ?df2 = map (\<lambda>r. AList.update ''week'' (Str (week_str (coerce_datetime parse (cell_of r ''timestamp''))))
                 (AList.update ''timestamp'' (coerce_datetime parse (cell_of r ''timestamp'')) r)) (rows ?df)"
    by (simp add: set_column_def [of "''week''"] r1 zip_map_map zip_same_conv_map comp_def)
  have keys: "group_keys ?df2 = filter (\<lambda>k. \<not> isna (fst k)) (map (pair_of parse) records)"
    unfolding group_keys_def r2
    by (simp add: comp_def cell_of_update pair_of_def rows_DataFrame
        cell_of_DataFrame_row case_prod_unfold filter_map cong: map_cong)
  have "trend_data parse records = Inr (groupby_size ?df2)"
    using ne c td by (simp add: trend_data_def Let_def col_def columns_set_column comp_def)
  then show ?thesis
    by (simp add: groupby_size_buckets keys count_list_filter cong: map_cong)
qed

lemma count_two_values:
  assumes "count_list xs a + count_list xs b = length xs" and "a \<noteq> b"
  shows "set xs \<subseteq> {a, b}"
proof -
  have le: "count_list ys a + count_list ys b \<le> length ys" for ys
    using assms(2) by (induction ys) auto
  show ?thesis
    using assms(1)
  proof (induction xs)
    case Nil
    then show ?case by simp
  next
    case (Cons x xs)
    then show ?case using le [of xs] assms(2) by (auto split: if_splits)
  qed
qed

lemma week_start_monday:
  "week_start d \<le> d \<and> d \<le> week_start d + 6 \<and> (week_start d + 3) mod 7 = 0"
  unfolding week_start_def by presburger

lemma distinct_set_two:
  assumes "distinct ks" and "set ks = {a, b}" and "a \<noteq> b"
  shows "ks = [a, b] \<or> ks = [b, a]"
proof -
  have "length ks = 2"
    using assms distinct_card [of ks] by simp
  then obtain x y where "ks = [x, y]"
    by (metis One_nat_def Suc_1 length_0_conv length_Suc_conv)
  with assms show ?thesis by auto
qed

lemma civil_examples:
  "civil_from_days 19723 = (2024, 1, 1)"
  "civil_from_days 19729 = (2024, 1, 7)"
  "civil_from_days 19730 = (2024, 1, 8)"
  "civil_from_days 19736 = (2024, 1, 14)"
  by code_simp+

lemma pad_examples:
  "pad 4 2024 = ''2024''" "pad 2 1 = ''01''" "pad 2 7 = ''07''" "pad 2 8 = ''08''" "pad 2 14 = ''14''"
  by (simp_all add: pad_def str_int_def digits.simps Let_def digit_char_def)

lemma fmt_date_examples:
  "fmt_date 19723 = ''2024-01-01''"
  "fmt_date 19729 = ''2024-01-07''"
  "fmt_date 19730 = ''2024-01-08''"
  "fmt_date 19736 = ''2024-01-14''"
  by (simp_all add: fmt_date_def civil_examples pad_examples)

lemma week_str_examples:
  "week_str (TS 1704715200000000000) = ''2024-01-08/2024-01-14''"
  "week_str (TS 1704067200000000000) = ''2024-01-01/2024-01-07''"
  "week_str (TS 1704268800000000000) = ''2024-01-01/2024-01-07''"
  "week_str (TS 1705276740000000000) = ''2024-01-08/2024-01-14''"
  "week_str (TS 1704671940000000000) = ''2024-01-01/2024-01-07''"
  "week_str (TS 1704880800000000000) = ''2024-01-08/2024-01-14''"
  "week_str (TS 1704186000000000000) = ''2024-01-01/2024-01-07''"
  by (simp_all add: ns_per_day_def ns_per_second_def week_start_def Let_def fmt_date_examples)

lemma parse_iso_weekly:
  "parse_iso ''2024-01-08 12:00'' = Some 1704715200000000000"
  "parse_iso ''2024-01-01 00:00'' = Some 1704067200000000000"
  "parse_iso ''2024-01-14 23:59'' = Some 1705276740000000000"
  "parse_iso ''2024-01-07 23:59'' = Some 1704671940000000000"
  by (simp_all add: parse_iso_def digit_val_def days_in_month_def days_from_civil_def
      ns_per_second_def)

lemma report_ok_example: "report_ok (example_report ts z)"
  by (simp add: report_ok_def example_report_def required_columns_def)

lemma cell_of_example:
  "cell_of (example_report ts z) ''timestamp'' = ts"
  "cell_of (example_report ts z) ''zipcode'' = z"
  by (simp_all add: cell_of_def example_report_def)

lemmas example_dates = parse_iso_examples parse_iso_weekly week_str_examples

lemma pairs_weekly_store:
  "map (pair_of parse_iso) weekly_store =
     [(Str ''10001'', Str ''2024-01-08/2024-01-14''),
      (Str ''10001'', Str ''2024-01-01/2024-01-07''),
      (Str ''10001'', Str ''2024-01-01/2024-01-07''),
      (Str ''10001'', Str ''2024-01-08/2024-01-14''),
      (Str ''10001'', Str ''2024-01-01/2024-01-07'')]"
  by (simp add: weekly_store_def pair_of_def cell_of_example coerce_datetime_def
      nat_strings_def example_dates del: week_str.simps)

lemma weekly_store_ok:
  "\<forall>r \<in> set weekly_store. report_ok r \<and> convert_datetime parse_iso (cell_of r ''timestamp'') \<noteq> None"
  by (simp add: weekly_store_def report_ok_example cell_of_example nat_strings_def example_dates)

lemma count_list_length_filter: "count_list (map f xs) k = length (filter (\<lambda>x. f x = k) xs)"
  by (induction xs) auto

text \<open>
  C3 (amended). In a store whose reports have the ten fields and timestamps that convert,
  the trend table is computed, and it lists each observed (zipcode, week) pair whose zip
  code is not missing exactly once, with the number of reports that have the pair, and
  nothing else; no week without a report is listed. In particular, three reports in
  one week and two in another, all for zip code "10001", give exactly the two entries
  with counts 3 and 2. The week of a Timestamp is the one from the Monday on or before
  its day to the following Sunday, named by these two dates.
\<close>

theorem trend_lists_observed_pairs:
  assumes "\<forall>r \<in> set records. report_ok r \<and> convert_datetime parse (cell_of r ''timestamp'') \<noteq> None"
  shows "(\<exists>ks. trend_data parse records =
                Inr (map (\<lambda>k. bucket k (count_list (map (pair_of parse) records) k)) ks)
            \<and> distinct ks
            \<and> set ks = {k \<in> observed_pairs parse records. \<not> isna (fst k)}
            \<and> (\<forall>k \<in> set ks. 0 < count_list (map (pair_of parse) records) k))
     \<and> (\<forall>W1 W2. W1 \<noteq> W2
            \<and> count_list (map (pair_of parse) records) (Str ''10001'', W1) = 3
            \<and> count_list (map (pair_of parse) records) (Str ''10001'', W2) = 2
            \<and> length records = 5
          \<longrightarrow> (\<exists>trend. trend_data parse records = Inr trend \<and> length trend = 2
                 \<and> set trend = {bucket (Str ''10001'', W1) 3, bucket (Str ''10001'', W2) 2}))
     \<and> (\<forall>t. week_str (TS t) = fmt_date (week_start (t div ns_per_day)) @ ''/''
                                 @ fmt_date (week_start (t div ns_per_day) + 6)
            \<and> week_start (t div ns_per_day) \<le> t div ns_per_day
            \<and> t div ns_per_day \<le> week_start (t div ns_per_day) + 6
            \<and> (week_start (t div ns_per_day) + 3) mod 7 = 0)"
proof -
  let ?pairs = "map (pair_of parse) records"
  define ks where "ks = sort_key (\<lambda>(z, w). (cell_rank z, cell_rank w))
               (remdups (filter (\<lambda>k. \<not> isna (fst k)) ?pairs))"
  have td: "trend_data parse records = Inr (map (\<lambda>k. bucket k (count_list ?pairs k)) ks)"
    using trend_data_buckets [OF assms] by (simp add: ks_def)
  have d: "distinct ks" by (simp add: ks_def)
  have s: "set ks = {k \<in> observed_pairs parse records. \<not> isna (fst k)}"
    by (auto simp: ks_def observed_pairs_def)
  have c: "\<forall>k \<in> set ks. 0 < count_list ?pairs k"
  proof
    fix k assume "k \<in> set ks"
    then have "k \<in> set ?pairs" using s by (auto simp: observed_pairs_def)
    then show "0 < count_list ?pairs k"
      using count_list_0_iff [of ?pairs k] by (cases "count_list ?pairs k") auto
  qed
  have two: "\<exists>trend. trend_data parse records = Inr trend \<and> length trend = 2
                 \<and> set trend = {bucket (Str ''10001'', W1) 3, bucket (Str ''10001'', W2) 2}"
    if "W1 \<noteq> W2" and c1: "count_list ?pairs (Str ''10001'', W1) = 3"
      and c2: "count_list ?pairs (Str ''10001'', W2) = 2" and "length records = 5" for W1 W2
  proof -
    have "set ?pairs \<subseteq> {(Str ''10001'', W1), (Str ''10001'', W2)}"
      by (rule count_two_values) (use that in auto)
    moreover have "(Str ''10001'', W1) \<in> set ?pairs" "(Str ''10001'', W2) \<in> set ?pairs"
      using c1 c2 by (metis count_list_0_iff zero_neq_numeral)+
    ultimately have "pair_of parse ` set records = {(Str ''10001'', W1), (Str ''10001'', W2)}"
      by auto
    then have "set ks = {(Str ''10001'', W1), (Str ''10001'', W2)}"
      unfolding s observed_pairs_def by auto
    then have "ks = [(Str ''10001'', W1), (Str ''10001'', W2)] \<or> ks = [(Str ''10001'', W2), (Str ''10001'', W1)]"
      using distinct_set_two [OF d] that(1) by simp
    then show ?thesis
    proof
      assume "ks = [(Str ''10001'', W1), (Str ''10001'', W2)]"
      then show ?thesis unfolding td using c1 c2 by simp
    next
      assume "ks = [(Str ''10001'', W2), (Str ''10001'', W1)]"
      then show ?thesis unfolding td using c1 c2 by (simp add: insert_commute)
    qed
  qed
  have A: "\<exists>ks. trend_data parse records =
                Inr (map (\<lambda>k. bucket k (count_list (map (pair_of parse) records) k)) ks)
            \<and> distinct ks
            \<and> set ks = {k \<in> observed_pairs parse records. \<not> isna (fst k)}
            \<and> (\<forall>k \<in> set ks. 0 < count_list (map (pair_of parse) records) k)"
    using td d s c by (intro exI [of _ ks] conjI)
  have C: "week_str (TS t) = fmt_date (week_start (t div ns_per_day)) @ ''/''
                                 @ fmt_date (week_start (t div ns_per_day) + 6)
            \<and> week_start (t div ns_per_day) \<le> t div ns_per_day
            \<and> t div ns_per_day \<le> week_start (t div ns_per_day) + 6
            \<and> (week_start (t div ns_per_day) + 3) mod 7 = 0" for t
    using week_start_monday [of "t div ns_per_day"] by (simp add: Let_def)
  show ?thesis
  proof (intro conjI)
    show "\<forall>W1 W2. W1 \<noteq> W2
            \<and> count_list (map (pair_of parse) records) (Str ''10001'', W1) = 3
            \<and> count_list (map (pair_of parse) records) (Str ''10001'', W2) = 2
            \<and> length records = 5
          \<longrightarrow> (\<exists>trend. trend_data parse records = Inr trend \<and> length trend = 2
                 \<and> set trend = {bucket (Str ''10001'', W1) 3, bucket (Str ''10001'', W2) 2})"
      using two by blast
  qed (use A C in blast)+
qed

theorem trend_lists_observed_pairs_witness:
  "list_all (\<lambda>r. report_ok r \<and> convert_datetime parse_iso (cell_of r ''timestamp'') \<noteq> None)
     weekly_store
   \<and> (\<exists>trend. trend_data parse_iso weekly_store = Inr trend \<and> length trend = 2
         \<and> set trend = {bucket (Str ''10001'', Str ''2024-01-01/2024-01-07'') 3,
                         bucket (Str ''10001'', Str ''2024-01-08/2024-01-14'') 2})"
proof -
  have "\<exists>trend. trend_data parse_iso weekly_store = Inr trend \<and> length trend = 2
         \<and> set trend = {bucket (Str ''10001'', Str ''2024-01-01/2024-01-07'') 3,
                         bucket (Str ''10001'', Str ''2024-01-08/2024-01-14'') 2}"
    by (rule trend_lists_observed_pairs [OF weekly_store_ok, THEN conjunct2, THEN conjunct1,
          THEN spec, THEN spec, THEN mp])
      (simp add: pairs_weekly_store, simp add: weekly_store_def)
  then show ?thesis
    using weekly_store_ok by (simp add: list_all_iff)
qed

text \<open>
  C3 as stated fails: a report with a date but without zip code (an imported row with an
  empty zip code field) is an observed pair that the trend table does not list.
\<close>

theorem trend_omits_null_zipcode_counterexample:
  "trend_data parse_iso no_zip_store = Inr []
   \<and> observed_pairs parse_iso no_zip_store = {(NaN, Str ''2024-01-01/2024-01-07'')}
   \<and> trend_pairs [] \<noteq> observed_pairs parse_iso no_zip_store"
proof -
  have ok: "\<forall>r \<in> set no_zip_store. report_ok r
              \<and> convert_datetime parse_iso (cell_of r ''timestamp'') \<noteq> None"
    by (simp add: no_zip_store_def report_ok_example cell_of_example nat_strings_def example_dates)
  have p: "map (pair_of parse_iso) no_zip_store = [(NaN, Str ''2024-01-01/2024-01-07'')]"
    by (simp add: no_zip_store_def pair_of_def cell_of_example coerce_datetime_def
        nat_strings_def example_dates del: week_str.simps)
  have "trend_data parse_iso no_zip_store = Inr []"
    unfolding trend_data_buckets [OF ok] p by simp
  moreover have "observed_pairs parse_iso no_zip_store = {(NaN, Str ''2024-01-01/2024-01-07'')}"
    using p by (simp add: observed_pairs_def no_zip_store_def)
  ultimately show ?thesis by (simp add: trend_pairs_def)
qed

lemma coerce_datetime_isna: "isna v \<Longrightarrow> coerce_datetime parse v = NaT"
  by (cases v) (simp_all add: coerce_datetime_def)

text \<open>
  C10 (amended). In such a store, a report without timestamp whose zip code is not
  missing is counted in the entry of its zip code with the week key "NaT", next to the
  entries of the dated reports: every report with a zip code is counted in the entry of
  its pair.
\<close>

theorem null_timestamp_bucket:
  assumes "\<forall>r \<in> set records. report_ok r \<and> convert_datetime parse (cell_of r ''timestamp'') \<noteq> None"
    and "r \<in> set records"
    and "isna (cell_of r ''timestamp'')"
    and "\<not> isna (cell_of r ''zipcode'')"
  shows "\<exists>trend n. trend_data parse records = Inr trend
           \<and> pair_of parse r = (cell_of r ''zipcode'', Str ''NaT'')
           \<and> bucket (cell_of r ''zipcode'', Str ''NaT'') n \<in> set trend
           \<and> n = length (filter (\<lambda>x. pair_of parse x = (cell_of r ''zipcode'', Str ''NaT'')) records)
           \<and> 0 < n
           \<and> (\<forall>x \<in> set records. \<not> isna (cell_of x ''zipcode'')
                 \<longrightarrow> (\<exists>m. 0 < m \<and> bucket (pair_of parse x) m \<in> set trend))"
proof -
  let ?pairs = "map (pair_of parse) records"
  define ks where "ks = sort_key (\<lambda>(z, w). (cell_rank z, cell_rank w))
               (remdups (filter (\<lambda>k. \<not> isna (fst k)) ?pairs))"
  define trend where "trend = map (\<lambda>k. bucket k (count_list ?pairs k)) ks"
  have td: "trend_data parse records = Inr trend"
    using trend_data_buckets [OF assms(1)] by (simp add: ks_def trend_def)
  have p: "pair_of parse r = (cell_of r ''zipcode'', Str ''NaT'')"
    using assms(3) by (simp add: pair_of_def coerce_datetime_isna)
  have listed: "0 < count_list ?pairs (pair_of parse x)
               \<and> bucket (pair_of parse x) (count_list ?pairs (pair_of parse x)) \<in> set trend"
    if "x \<in> set records" "\<not> isna (cell_of x ''zipcode'')" for x
  proof -
    have "pair_of parse x \<in> set ?pairs" using that(1) by simp
    then have "0 < count_list ?pairs (pair_of parse x)"
      using count_list_0_iff [of ?pairs "pair_of parse x"] by (cases "count_list ?pairs (pair_of parse x)") auto
    moreover have "pair_of parse x \<in> set ks"
      using that by (auto simp: ks_def pair_of_def)
    ultimately show ?thesis by (auto simp: trend_def)
  qed
  have "0 < count_list ?pairs (cell_of r ''zipcode'', Str ''NaT'')
        \<and> bucket (cell_of r ''zipcode'', Str ''NaT'') (count_list ?pairs (cell_of r ''zipcode'', Str ''NaT'')) \<in> set trend"
    using listed [OF assms(2) assms(4)] by (simp add: p)
  then show ?thesis
    using td p listed by (auto simp: count_list_length_filter)
qed

lemma example_store_ok:
  "\<forall>r \<in> set example_store. report_ok r \<and> convert_datetime parse_iso (cell_of r ''timestamp'') \<noteq> None"
  by (simp add: example_store_def report_ok_example cell_of_example nat_strings_def example_dates)

theorem null_timestamp_bucket_witness:
  "list_all (\<lambda>r. report_ok r \<and> convert_datetime parse_iso (cell_of r ''timestamp'') \<noteq> None)
     example_store
   \<and> example_report NaT (IntV 10001) \<in> set example_store
   \<and> (\<exists>trend n. trend_data parse_iso example_store = Inr trend
         \<and> bucket (IntV 10001, Str ''NaT'') n \<in> set trend \<and> 0 < n)"
proof -
  have m: "example_report NaT (IntV 10001) \<in> set example_store"
    by (simp add: example_store_def)
  have "\<exists>trend n. trend_data parse_iso example_store = Inr trend
         \<and> bucket (IntV 10001, Str ''NaT'') n \<in> set trend \<and> 0 < n"
    using null_timestamp_bucket [OF example_store_ok m]
    by (simp add: cell_of_example) blast
  then show ?thesis
    using example_store_ok m by (simp add: list_all_iff)
qed

text \<open>
  C10 as stated fails: a report without timestamp and without zip code is dropped.
\<close>

theorem null_timestamp_dropped_counterexample:
  "no_zip_no_date_store = [example_report NaT NaN]
   \<and> isna (cell_of (example_report NaT NaN) ''timestamp'')
   \<and> trend_data parse_iso no_zip_no_date_store = Inr []"
proof -
  have ok: "\<forall>r \<in> set no_zip_no_date_store. report_ok r
              \<and> convert_datetime parse_iso (cell_of r ''timestamp'') \<noteq> None"
    by (simp add: no_zip_no_date_store_def report_ok_example cell_of_example)
  have p: "map (pair_of parse_iso) no_zip_no_date_store = [(NaN, Str ''NaT'')]"
    by (simp add: no_zip_no_date_store_def pair_of_def cell_of_example coerce_datetime_def)
  have "trend_data parse_iso no_zip_no_date_store = Inr []"
    unfolding trend_data_buckets [OF ok] p by simp
  then show ?thesis
    by (simp add: no_zip_no_date_store_def cell_of_example)
qed

section \<open>Summary request\<close>



















section \<open>Export and re-import\<close>

text \<open>
  What the reader's tokenizer makes of a text that \<^verbatim>\<open>to_csv\<close> wrote: field by field and
  line by line it recovers the texts that were written.
\<close>

lemma chars_distinct [simp]:
  "LF \<noteq> CHR '',''" "LF \<noteq> DQUOTE" "LF \<noteq> CR" "CR \<noteq> CHR '',''" "CR \<noteq> DQUOTE" "DQUOTE \<noteq> CHR '',''"
  "CHR '','' \<noteq> LF" "DQUOTE \<noteq> LF" "CR \<noteq> LF" "CHR '','' \<noteq> CR" "DQUOTE \<noteq> CR" "CHR '','' \<noteq> DQUOTE"
  by (simp_all add: LF_def CR_def DQUOTE_def)

lemma in_field_plain:
  "\<forall>c \<in> set xs. \<not> special c \<Longrightarrow>
   foldl step \<lparr>pstate = IN_FIELD, word = w, line = l, lines = ls\<rparr> xs =
     \<lparr>pstate = IN_FIELD, word = w @ xs, line = l, lines = ls\<rparr>"
  by (induction xs arbitrary: w) (simp_all add: step_def special_def push_char_def)

lemma in_quoted_escaped:
  "foldl step \<lparr>pstate = IN_QUOTED_FIELD, word = w, line = l, lines = ls\<rparr>
     (concat (map (\<lambda>c. if c = DQUOTE then [DQUOTE, DQUOTE] else [c]) xs)) =
     \<lparr>pstate = IN_QUOTED_FIELD, word = w @ xs, line = l, lines = ls\<rparr>"
  by (induction xs arbitrary: w) (simp_all add: step_def push_char_def)

text \<open>One written field followed by a comma or the end of the line, read at the start of a field.\<close>

lemma field_then_comma:
  "foldl step \<lparr>pstate = START_FIELD, word = [], line = l, lines = ls\<rparr> (csv_field f @ '','') =
     \<lparr>pstate = START_FIELD, word = [], line = l @ [f], lines = ls\<rparr>"
proof (cases "needs_quote f")
  case True
  then show ?thesis
    by (simp add: csv_field_def step_def start_field_char_def in_quoted_escaped end_field_def)
next
  case False
  then have plain: "\<forall>c \<in> set f. \<not> special c"
    by (auto simp: needs_quote_def special_def)
  show ?thesis
  proof (cases f)
    case Nil
    then show ?thesis
      using False by (simp add: csv_field_def step_def start_field_char_def end_field_def)
  next
    case (Cons x xs)
    then have "\<not> special x" "\<forall>c \<in> set xs. \<not> special c" using plain by auto
    then show ?thesis
      using False Cons
      by (simp add: csv_field_def step_def start_field_char_def push_char_def in_field_plain
          end_field_def special_def)
  qed
qed

lemma field_then_newline:
  "foldl step \<lparr>pstate = START_FIELD, word = [], line = l, lines = ls\<rparr> (csv_field f @ [LF]) =
     \<lparr>pstate = START_RECORD, word = [], line = [], lines = ls @ [l @ [f]]\<rparr>"
proof (cases "needs_quote f")
  case True
  then show ?thesis
    by (simp add: csv_field_def step_def start_field_char_def in_quoted_escaped end_field_def
        end_line_def)
next
  case False
  then have plain: "\<forall>c \<in> set f. \<not> special c"
    by (auto simp: needs_quote_def special_def)
  show ?thesis
  proof (cases f)
    case Nil
    then show ?thesis
      using False by (simp add: csv_field_def step_def start_field_char_def end_field_def end_line_def)
  next
    case (Cons x xs)
    then have "\<not> special x" "\<forall>c \<in> set xs. \<not> special c" using plain by auto
    then show ?thesis
      using False Cons
      by (simp add: csv_field_def step_def start_field_char_def push_char_def in_field_plain
          end_field_def end_line_def special_def)
  qed
qed

lemma fields_then_newline:
  "fs \<noteq> [] \<Longrightarrow>
   foldl step \<lparr>pstate = START_FIELD, word = [], line = l, lines = ls\<rparr>
     (join '','' (map csv_field fs) @ [LF]) =
     \<lparr>pstate = START_RECORD, word = [], line = [], lines = ls @ [l @ fs]\<rparr>"
proof (induction fs arbitrary: l)
  case Nil
  then show ?case by simp
next
  case (Cons f fs)
  show ?case
  proof (cases fs)
    case Nil
    then show ?thesis using field_then_newline by simp
  next
    case (Cons g gs)
    have ne: "fs \<noteq> []" using Cons by simp
    have eq: "join '','' (map csv_field (f # fs)) @ [LF]
          = (csv_field f @ '','') @ (join '','' (map csv_field fs) @ [LF])"
      using Cons by simp
    have "foldl step \<lparr>pstate = START_FIELD, word = [], line = l, lines = ls\<rparr>
            (join '','' (map csv_field (f # fs)) @ [LF])
          = foldl step (foldl step \<lparr>pstate = START_FIELD, word = [], line = l, lines = ls\<rparr>
                         (csv_field f @ '',''))
              (join '','' (map csv_field fs) @ [LF])"
      by (simp only: eq foldl_append)
    also have "\<dots> = foldl step \<lparr>pstate = START_FIELD, word = [], line = l @ [f], lines = ls\<rparr>
              (join '','' (map csv_field fs) @ [LF])"
      by (simp only: field_then_comma)
    also have "\<dots> = \<lparr>pstate = START_RECORD, word = [], line = [], lines = ls @ [(l @ [f]) @ fs]\<rparr>"
      by (rule Cons.IH [OF ne])
    finally show ?thesis by simp
  qed
qed

text \<open>A written line, read at the start of a record.\<close>

lemma csv_line_read:
  assumes "fs \<noteq> []"
  shows "foldl step \<lparr>pstate = START_RECORD, word = [], line = [], lines = ls\<rparr> (csv_line fs) =
     \<lparr>pstate = START_RECORD, word = [], line = [], lines = ls @ [fs]\<rparr>"
proof (cases "fs = [[]]")
  case True
  then show ?thesis
    by (simp add: csv_line_def step_def start_record_char_def start_field_char_def
        end_field_def end_line_def)
next
  case False
  obtain f gs where fs: "fs = f # gs" using assms by (cases fs) auto
  let ?text = "join '','' (map csv_field fs) @ [LF]"
  obtain c cs where tx: "?text = c # cs" by (cases ?text) auto
  have first: "c \<noteq> LF \<and> c \<noteq> CR"
  proof (cases "csv_field f")
    case Nil
    then have "f = []" by (auto simp: csv_field_def split: if_splits)
    then obtain g hs where "gs = g # hs" using False fs by (cases gs) auto
    then show ?thesis using tx fs Nil by auto
  next
    case (Cons x xs)
    then have c: "c = x" using tx fs by (cases gs) auto
    show ?thesis
    proof (cases "needs_quote f")
      case True
      then show ?thesis using Cons c by (simp add: csv_field_def)
    next
      case False
      then have "\<not> special x" using Cons by (auto simp: csv_field_def needs_quote_def special_def)
      then show ?thesis using c by (auto simp: special_def)
    qed
  qed
  have "foldl step \<lparr>pstate = START_RECORD, word = [], line = [], lines = ls\<rparr> ?text
        = foldl step \<lparr>pstate = START_FIELD, word = [], line = [], lines = ls\<rparr> ?text"
    unfolding tx using first by (simp add: step_def start_record_char_def)
  then show ?thesis
    using False fields_then_newline [OF assms, of "[]" ls] by (simp add: csv_line_def)
qed

lemma csv_lines_read:
  "\<forall>fs \<in> set rs. fs \<noteq> [] \<Longrightarrow>
   foldl step \<lparr>pstate = START_RECORD, word = [], line = [], lines = ls\<rparr> (concat (map csv_line rs)) =
     \<lparr>pstate = START_RECORD, word = [], line = [], lines = ls @ rs\<rparr>"
  by (induction rs arbitrary: ls) (simp_all add: csv_line_read)

lemma tokenize_to_csv:
  assumes "columns df \<noteq> []"
  shows "tokenize (to_csv df) =
     Inr (columns df # map (\<lambda>r. map (\<lambda>c. csv_text (cell_of r c)) (columns df)) (rows df))"
proof -
  have "to_csv df = concat (map csv_line
      (columns df # map (\<lambda>r. map (\<lambda>c. csv_text (cell_of r c)) (columns df)) (rows df)))"
    by (simp add: to_csv_def comp_def)
  moreover have "\<forall>fs \<in> set (columns df # map (\<lambda>r. map (\<lambda>c. csv_text (cell_of r c)) (columns df)) (rows df)). fs \<noteq> []"
    using assms by auto
  ultimately show ?thesis
    by (simp only: tokenize_def csv_lines_read) (simp add: handle_eof_def)
qed

lemma read_csv_to_csv_columns:
  assumes "columns df \<noteq> []"
  shows "\<exists>rs. read_csv (to_csv df) = Inr \<lparr>columns = columns df, rows = rs\<rparr> \<and> length rs = length (rows df)"
  by (simp add: read_csv_def tokenize_to_csv [OF assms] Let_def)

lemma blank_lines_read:
  "foldl step \<lparr>pstate = START_RECORD, word = [], line = [], lines = ls\<rparr> (replicate n LF) =
     \<lparr>pstate = START_RECORD, word = [], line = [], lines = ls\<rparr>"
  by (induction n) (simp_all add: step_def start_record_char_def)

lemma read_csv_no_columns:
  assumes "columns df = []"
  shows "read_csv (to_csv df) = Inl EmptyDataError"
proof -
  have "to_csv df = replicate (Suc (length (rows df))) LF"
    using assms by (simp add: to_csv_def csv_line_def map_replicate_const)
  then show ?thesis
    by (simp only: read_csv_def tokenize_def blank_lines_read) (simp add: handle_eof_def)
qed

lemma remdups_append_subset: "set xs \<subseteq> set ys \<Longrightarrow> remdups (xs @ ys) = remdups ys"
  by (induction xs) auto

lemma columns_same_keys:
  assumes "records \<noteq> []" and "\<forall>r \<in> set records. map fst r = cs" and "distinct cs"
  shows "columns (DataFrame records) = cs"
proof -
  have key: "remdups (rev (concat (map (map fst) rs))) = rev cs"
    if "rs \<noteq> []" "\<forall>r \<in> set rs. map fst r = cs" for rs
    using that
  proof (induction rs)
    case Nil
    then show ?case by simp
  next
    case (Cons r rs)
    have r: "map fst r = cs" using Cons.prems by simp
    have "set (rev (concat (map (map fst) rs))) \<subseteq> set (rev cs)"
      using Cons.prems by auto
    then have "remdups (rev (concat (map (map fst) rs)) @ rev cs) = remdups (rev cs)"
      by (rule remdups_append_subset)
    then show ?case using assms(3) by (simp add: r)
  qed
  have "remdups (rev (concat (map (map fst) records))) = rev cs"
    using assms(1,2) by (rule key)
  then show ?thesis by (simp add: DataFrame_def Let_def)
qed

lemma reimport_result:
  "upload_handler parse (export_csv records) s =
     (s, if columns (table_df records) = [] then ProcessingError EmptyDataError
         else MissingColumns (filter (\<lambda>c. c \<notin> set (columns (table_df records))) required_columns))"
proof (cases "columns (table_df records) = []")
  case True
  then show ?thesis
    by (simp add: upload_handler_def export_csv_def read_csv_no_columns)
next
  case False
  obtain rs where rd: "read_csv (to_csv (table_df records))
      = Inr \<lparr>columns = columns (table_df records), rows = rs\<rparr>"
    using read_csv_to_csv_columns [OF False] by blast
  have "''photo_path'' \<notin> set (columns (table_df records))"
    by (simp add: table_df_def drop_column_def)
  then have "filter (\<lambda>c. c \<notin> set (columns (table_df records))) required_columns \<noteq> []"
    by (auto simp: filter_empty_conv required_columns_def)
  then show ?thesis
    using False by (simp add: upload_handler_def export_csv_def rd Let_def)
qed

lemma reimport_same_keys:
  assumes "records \<noteq> []" and "\<forall>r \<in> set records. map fst r = required_columns"
  shows "columns (table_df records) = butlast required_columns
         \<and> upload_handler parse (export_csv records) s = (s, MissingColumns [''photo_path''])"
proof -
  have "columns (DataFrame records) = required_columns"
    using assms by (intro columns_same_keys) (simp_all add: required_columns_def)
  then have c: "columns (table_df records) = butlast required_columns"
    by (simp add: table_df_def drop_column_def required_columns_def)
  then show ?thesis
    unfolding reimport_result c by (simp add: required_columns_def)
qed

lemma submitted_store_keys:
  "submitted_store \<noteq> [] \<and> (\<forall>r \<in> set submitted_store. map fst r = required_columns)"
  by (simp add: submitted_store_def submit_report_def example_form_def empty_session_def
      required_columns_def)

lemma submitted_store_value:
  "submitted_store =
     [[(''timestamp'', Str ''2024-01-05 09:03''), (''address'', Str ''12 Main St''),
       (''zipcode'', Str ''01234''), (''description'', Str ''murky''),
       (''concerns'', Str ''Foam, Bugs''), (''type'', Str ''Faucet''), (''used'', Str ''Yes''),
       (''symptoms'', Str []), (''alert'', BoolV True), (''photo_path'', NoneV)]]"
  by (simp add: submitted_store_def submit_report_def example_form_def empty_session_def
      pad_def str_int_def digits.simps Let_def digit_char_def)

lemma export_submitted_store:
  "export_csv submitted_store =
     ''timestamp,address,zipcode,description,concerns,type,used,symptoms,alert'' @ [LF]
     @ ''2024-01-05 09:03,12 Main St,01234,murky,'' @ [DQUOTE] @ ''Foam, Bugs'' @ [DQUOTE]
     @ '',Faucet,Yes,,True'' @ [LF]"
  by (simp add: export_csv_def table_df_def drop_column_def DataFrame_def submitted_store_value
      cell_of_def to_csv_def csv_line_def csv_field_def needs_quote_def Let_def
      LF_def CR_def DQUOTE_def)

text \<open>
  C1 (amended). For every store and every session, the text of the download starts with
  the header row, the columns of the table (the field names without \<^verbatim>\<open>photo_path\<close>), and
  the reader's tokenizer recovers from it the header and the text of every exported field
  as it was written. Given to the bulk import, the text is rejected: the import reports
  the required columns that the table lacks (an empty file, for a table with no column)
  and leaves the session as it was, so that no row is appended. For a store whose reports
  all have the ten fields, the header is the nine fields other than \<^verbatim>\<open>photo_path\<close> and
  the import reports the single missing column \<^verbatim>\<open>photo_path\<close>.
\<close>

theorem export_reimport_rejected:
  "upload_handler parse (export_csv records) s =
     (s, if columns (table_df records) = [] then ProcessingError EmptyDataError
         else MissingColumns (filter (\<lambda>c. c \<notin> set (columns (table_df records))) required_columns))
   \<and> reports (fst (upload_handler parse (export_csv records) s)) = reports s
   \<and> ''photo_path'' \<notin> set (columns (table_df records))
   \<and> (\<exists>body. export_csv records = csv_line (columns (table_df records)) @ body)
   \<and> (columns (table_df records) \<noteq> [] \<longrightarrow>
        tokenize (export_csv records) =
          Inr (columns (table_df records)
               # map (\<lambda>r. map (\<lambda>c. csv_text (cell_of r c)) (columns (table_df records)))
                   (rows (table_df records))))
   \<and> (records \<noteq> [] \<and> (\<forall>r \<in> set records. map fst r = required_columns)
        \<longrightarrow> columns (table_df records) = butlast required_columns
          \<and> upload_handler parse (export_csv records) s = (s, MissingColumns [''photo_path'']))"
proof (intro conjI impI)
  show "upload_handler parse (export_csv records) s =
    (s, if columns (table_df records) = [] then ProcessingError EmptyDataError
        else MissingColumns (filter (\<lambda>c. c \<notin> set (columns (table_df records))) required_columns))"
    by (rule reimport_result)
  show "reports (fst (upload_handler parse (export_csv records) s)) = reports s"
    by (simp add: reimport_result)
  show "''photo_path'' \<notin> set (columns (table_df records))"
    by (simp add: table_df_def drop_column_def)
  show "\<exists>body. export_csv records = csv_line (columns (table_df records)) @ body"
    by (simp add: export_csv_def to_csv_def)
next
  assume "columns (table_df records) \<noteq> []"
  then show "tokenize (export_csv records) =
          Inr (columns (table_df records)
               # map (\<lambda>r. map (\<lambda>c. csv_text (cell_of r c)) (columns (table_df records)))
                   (rows (table_df records)))"
    unfolding export_csv_def by (rule tokenize_to_csv)
next
  assume a: "records \<noteq> [] \<and> (\<forall>r \<in> set records. map fst r = required_columns)"
  then show "columns (table_df records) = butlast required_columns"
    using reimport_same_keys by blast
  from a show "upload_handler parse (export_csv records) s = (s, MissingColumns [''photo_path''])"
    using reimport_same_keys by blast
qed

lemma table_submitted_store:
  "table_df submitted_store =
     \<lparr>columns = butlast required_columns, rows = map (AList.delete ''photo_path'') submitted_store\<rparr>"
  by (simp add: table_df_def drop_column_def DataFrame_def submitted_store_value cell_of_def
      required_columns_def)

theorem export_reimport_rejected_witness:
  "submitted_store \<noteq> [] \<and> list_all (\<lambda>r. map fst r = required_columns) submitted_store
   \<and> columns (table_df submitted_store) \<noteq> []
   \<and> tokenize (export_csv submitted_store) =
       Inr [[''timestamp'', ''address'', ''zipcode'', ''description'', ''concerns'', ''type'',
             ''used'', ''symptoms'', ''alert''],
            [''2024-01-05 09:03'', ''12 Main St'', ''01234'', ''murky'', ''Foam, Bugs'',
             ''Faucet'', ''Yes'', [], ''True'']]
   \<and> columns (table_df submitted_store) = butlast required_columns
   \<and> upload_handler parse_iso (export_csv submitted_store)
         \<lparr>reports = submitted_store, uploader_key = 0\<rparr>
       = (\<lparr>reports = submitted_store, uploader_key = 0\<rparr>, MissingColumns [''photo_path''])"
proof -
  note ok = submitted_store_keys
  have ne: "columns (table_df submitted_store) \<noteq> []"
    by (simp add: table_submitted_store required_columns_def)
  note t = export_reimport_rejected [of parse_iso submitted_store
      "\<lparr>reports = submitted_store, uploader_key = 0\<rparr>",
      THEN conjunct2, THEN conjunct2, THEN conjunct2, THEN conjunct2]
  note t1 = t [THEN conjunct1, THEN mp, OF ne]
  note t2 = t [THEN conjunct2, THEN mp, OF ok]
  have "tokenize (export_csv submitted_store) =
       Inr [[''timestamp'', ''address'', ''zipcode'', ''description'', ''concerns'', ''type'',
             ''used'', ''symptoms'', ''alert''],
            [''2024-01-05 09:03'', ''12 Main St'', ''01234'', ''murky'', ''Foam, Bugs'',
             ''Faucet'', ''Yes'', [], ''True'']]"
    unfolding t1
    by (simp add: table_submitted_store)
      (simp add: required_columns_def submitted_store_value cell_of_def)
  then show ?thesis using ok ne t2 by (simp add: list_all_iff)
qed

text \<open>
  C1 as stated fails: for the store that holds one report submitted through the form,
  the download is the two lines below, and the bulk import of that text reports the
  missing column \<^verbatim>\<open>photo_path\<close> and imports no row.
\<close>

theorem export_reimport_counterexample:
  "export_csv submitted_store =
     ''timestamp,address,zipcode,description,concerns,type,used,symptoms,alert'' @ [LF]
     @ ''2024-01-05 09:03,12 Main St,01234,murky,'' @ [DQUOTE] @ ''Foam, Bugs'' @ [DQUOTE]
     @ '',Faucet,Yes,,True'' @ [LF]
   \<and> upload_handler parse_iso (export_csv submitted_store) empty_session
       = (empty_session, MissingColumns [''photo_path''])
   \<and> reports (fst (upload_handler parse_iso (export_csv submitted_store) empty_session)) = []"
proof -
  have r: "upload_handler parse_iso (export_csv submitted_store) empty_session
       = (empty_session, MissingColumns [''photo_path''])"
    using reimport_same_keys submitted_store_keys by blast
  have e: "reports empty_session = []" by (simp add: empty_session_def)
  show ?thesis
    by (intro conjI) (rule export_submitted_store, rule r, simp add: r e)
qed

end
